theory Spec2Isabelle
  imports Complex_Main "HOL-Library.Word" "HOL-Library.Sublist"
    "HOL-Library.List_Lexorder" "HOL-Library.Char_ord"
begin

section \<open>Python values that reach the exporter\<close>

text \<open>
  A MongoDB field value as Python sees it. An ObjectId is its 12 bytes, a float is its
  IEEE-754 bit pattern (so equality is identity of the value, not Python's \<open>==\<close> on NaN),
  a datetime is an instant with the offset of its tzinfo (\<open>None\<close> for a naive one).
  \<open>POther s\<close> is a value of any other class whose \<open>str()\<close> is \<open>s\<close>.
\<close>

type_synonym bytes = "8 word list"

datatype datetime = Datetime (posix_micros: int) (utc_offset_minutes: "int option")

datatype pyval =
    PNone
  | PObjectId bytes
  | PDatetime datetime
  | PBytes bytes
  | PDict "(string \<times> pyval) list"
  | PList "pyval list"
  | PTuple "pyval list"
  | PSet "pyval list"
  | PStr string
  | PInt int
  | PFloat "64 word"
  | PBool bool
  | POther string

datatype error =
    InvalidId
  | TypeError

text \<open>
  The library functions the exporter calls on values and does not define: \<open>str()\<close>,
  \<open>datetime.astimezone(timezone.utc).isoformat()\<close>, \<open>bytes.decode("utf-8")\<close> (\<open>None\<close>
  when it raises), \<open>json.dumps(x, ensure_ascii=False, default=str)\<close>, and whether
  \<open>pd.isna(x)\<close> returns a truthy value without raising. They are parameters of the
  model; every theorem holds for any choice of them.
\<close>

record pylib =
  str_of :: "pyval \<Rightarrow> string"
  isoformat_utc :: "datetime \<Rightarrow> string"
  utf8_decode :: "bytes \<Rightarrow> string option"
  json_dumps :: "pyval \<Rightarrow> string"
  isna :: "pyval \<Rightarrow> bool"

subsection \<open>Hexadecimal text of bytes\<close>

text \<open>
  \<open>str(ObjectId)\<close> and \<open>bytes.hex()\<close> write two lowercase hexadecimal digits per byte.
  \<open>bytes.fromhex\<close> reads two hexadecimal digits (either case) per byte and skips ASCII
  whitespace in front of a pair; it raises on any other text (\<open>None\<close>).
\<close>

definition hex_digit :: "nat \<Rightarrow> char" where
  "hex_digit n = ''0123456789abcdef'' ! n"

definition hex_val :: "char \<Rightarrow> nat option" where
  "hex_val c =
     (let n = of_char c :: nat in
      if 48 \<le> n \<and> n \<le> 57 then Some (n - 48)
      else if 97 \<le> n \<and> n \<le> 102 then Some (n - 87)
      else if 65 \<le> n \<and> n \<le> 70 then Some (n - 55)
      else None)"

definition hexlify :: "bytes \<Rightarrow> string" where
  "hexlify bs = concat (map (\<lambda>b. [hex_digit (unat b div 16), hex_digit (unat b mod 16)]) bs)"

definition ascii_whitespace :: "char \<Rightarrow> bool" where
  "ascii_whitespace c = (of_char c \<in> {9, 10, 11, 12, 13, 32 :: nat})"

fun fromhex :: "string \<Rightarrow> bytes option" where
  "fromhex [] = Some []"
| "fromhex (c # cs) =
     (if ascii_whitespace c then fromhex cs
      else (case cs of
              [] \<Rightarrow> None
            | d # ds \<Rightarrow>
                (case (hex_val c, hex_val d, fromhex ds) of
                   (Some h, Some l, Some bs) \<Rightarrow> Some (of_nat (16 * h + l) # bs)
                 | _ \<Rightarrow> None)))"

definition str_ObjectId :: "bytes \<Rightarrow> string" where
  "str_ObjectId oid = hexlify oid"

text \<open>
  \<open>bson.ObjectId(val)\<close>: twelve bytes are taken as they are; a text of 24 characters is
  read by \<open>bytes.fromhex\<close> and is an InvalidId when that raises; a text of another length
  is an InvalidId; any other value, bytes of another length among them, is a TypeError.
\<close>

definition ObjectId :: "pyval \<Rightarrow> error + pyval" where
  "ObjectId val =
     (case val of
        PStr s \<Rightarrow>
          (if length s = 24 then
             (case fromhex s of Some bs \<Rightarrow> Inr (PObjectId bs) | None \<Rightarrow> Inl InvalidId)
           else Inl InvalidId)
      | PObjectId bs \<Rightarrow> Inr (PObjectId bs)
      | PBytes bs \<Rightarrow> (if length bs = 12 then Inr (PObjectId bs) else Inl TypeError)
      | PNone \<Rightarrow> Inr (PObjectId (replicate 12 0))  \<comment> \<open>a newly generated id; the model fixes one\<close>
      | _ \<Rightarrow> Inl TypeError)"

section \<open>Checkpoint payload of the sort value (export\_to\_gcs.py)\<close>

text \<open>The dict \<open>{"type": t, "value": v}\<close> that the checkpoint stores for the cursor.\<close>

record payload =
  ptype :: string
  pvalue :: pyval

definition encode_sort_value :: "pylib \<Rightarrow> pyval \<Rightarrow> payload" where
  "encode_sort_value lib v =
     (case v of
        PNone \<Rightarrow> \<lparr>ptype = ''none'', pvalue = PNone\<rparr>
      | PObjectId oid \<Rightarrow> \<lparr>ptype = ''objectid'', pvalue = PStr (str_ObjectId oid)\<rparr>
      | PDatetime d \<Rightarrow> \<lparr>ptype = ''datetime'', pvalue = PStr (isoformat_utc lib d)\<rparr>
      | PInt i \<Rightarrow> \<lparr>ptype = ''int'', pvalue = PInt i\<rparr>
      | PFloat f \<Rightarrow> \<lparr>ptype = ''float'', pvalue = PFloat f\<rparr>
      | PBool b \<Rightarrow> \<lparr>ptype = ''bool'', pvalue = PBool b\<rparr>
      | PStr s \<Rightarrow> \<lparr>ptype = ''str'', pvalue = PStr s\<rparr>
      | other \<Rightarrow> \<lparr>ptype = ''str'', pvalue = PStr (str_of lib other)\<rparr>)"

definition decode_sort_value :: "payload \<Rightarrow> error + pyval" where
  "decode_sort_value p =
     (let t = ptype p; val = pvalue p in
      if t = ''none'' then Inr PNone
      else if t = ''objectid'' then ObjectId val
      else if t = ''datetime'' then Inr val
      else Inr val)"

text \<open>The kinds of sort value the checkpoint format names.\<close>

fun supported_sort_value :: "pyval \<Rightarrow> bool" where
  "supported_sort_value PNone = True"
| "supported_sort_value (PObjectId oid) = (length oid = 12)"
| "supported_sort_value (PDatetime d) = True"
| "supported_sort_value (PInt i) = True"
| "supported_sort_value (PFloat f) = True"
| "supported_sort_value (PBool b) = True"
| "supported_sort_value (PStr s) = True"
| "supported_sort_value other = False"

section \<open>Parquet normalization (export\_to\_gcs.py)\<close>

text \<open>
  \<open>_jsonify_scalar\<close>: the order of the tests is the source's. \<open>None\<close> and a value that
  \<open>pd.isna\<close> reports missing give \<open>None\<close>; every other value gives a text.
\<close>

definition jsonify_scalar :: "pylib \<Rightarrow> pyval \<Rightarrow> string option" where
  "jsonify_scalar lib x =
     (if x = PNone then None
      else if isna lib x then None
      else (case x of
              PObjectId oid \<Rightarrow> Some (str_ObjectId oid)
            | PDatetime d \<Rightarrow> Some (isoformat_utc lib d)
            | PBytes bs \<Rightarrow>
                (case utf8_decode lib bs of Some s \<Rightarrow> Some s | None \<Rightarrow> Some (hexlify bs))
            | PDict kvs \<Rightarrow> Some (json_dumps lib x)
            | PList xs \<Rightarrow> Some (json_dumps lib x)
            | PTuple xs \<Rightarrow> Some (json_dumps lib x)
            | PSet xs \<Rightarrow> Some (json_dumps lib x)
            | PStr s \<Rightarrow> Some s
            | PInt i \<Rightarrow> Some (str_of lib x)
            | PFloat f \<Rightarrow> Some (str_of lib x)
            | PBool b \<Rightarrow> Some (str_of lib x)
            | other \<Rightarrow> Some (json_dumps lib x)))"

text \<open>
  A pandas frame: named columns, each with the dtype pandas gave it and its cells.
  \<open>pd.DataFrame(rows)\<close> gives a column the dtype \<open>object\<close> unless all its values are
  of one native kind (all ints, all floats, all bools, all datetimes).
\<close>

datatype dtype = ObjectDtype | Int64 | Float64 | BoolDtype | Datetime64

record column =
  cname :: string
  cdtype :: dtype
  cells :: "pyval list"

type_synonym dataframe = "column list"

definition cell_of :: "string option \<Rightarrow> pyval" where
  "cell_of r = (case r of None \<Rightarrow> PNone | Some s \<Rightarrow> PStr s)"

definition normalize_df_for_parquet :: "pylib \<Rightarrow> dataframe \<Rightarrow> dataframe" where
  "normalize_df_for_parquet lib df =
     map (\<lambda>c. if cdtype c = ObjectDtype
              then c\<lparr>cells := map (\<lambda>x. cell_of (jsonify_scalar lib x)) (cells c)\<rparr>
              else c) df"

fun text_or_null :: "pyval \<Rightarrow> bool" where
  "text_or_null PNone = True"
| "text_or_null (PStr s) = True"
| "text_or_null other = False"

definition all_text_or_null :: "dataframe \<Rightarrow> bool" where
  "all_text_or_null df = list_all (\<lambda>c. list_all text_or_null (cells c)) df"

text \<open>The values a column of a native dtype holds.\<close>

fun fits_dtype :: "dtype \<Rightarrow> pyval \<Rightarrow> bool" where
  "fits_dtype ObjectDtype v = True"
| "fits_dtype Int64 v = (case v of PInt i \<Rightarrow> True | _ \<Rightarrow> False)"
| "fits_dtype Float64 v = (case v of PFloat f \<Rightarrow> True | _ \<Rightarrow> False)"
| "fits_dtype BoolDtype v = (case v of PBool b \<Rightarrow> True | _ \<Rightarrow> False)"
| "fits_dtype Datetime64 v = (case v of PDatetime d \<Rightarrow> True | PNone \<Rightarrow> True | _ \<Rightarrow> False)"

definition well_typed :: "dataframe \<Rightarrow> bool" where
  "well_typed df = list_all (\<lambda>c. list_all (fits_dtype (cdtype c)) (cells c)) df"

definition column_uniform :: "column \<Rightarrow> bool" where
  "column_uniform c =
     (if cdtype c = ObjectDtype then list_all text_or_null (cells c)
      else list_all (fits_dtype (cdtype c)) (cells c))"

section \<open>Exceptions and retries\<close>

text \<open>
  An exception is its class and its message (\<open>str(e)\<close>). The classes are some of those that
  \<open>google.api_core.exceptions\<close> defines, some built-in ones and one of pyarrow; an
  instance of a subclass counts as its listed class, as \<open>isinstance\<close> has it. \<open>SystemExit\<close>
  and \<open>KeyboardInterrupt\<close> are not subclasses of \<open>Exception\<close>: \<open>except Exception\<close> lets
  them through.
\<close>

datatype exc_class =
    TooManyRequests
  | ServiceUnavailable
  | InternalServerError
  | BadGateway
  | GatewayTimeout
  | DeadlineExceeded
  | Forbidden
  | NotFound
  | BadRequest
  | FileNotFoundError
  | AttributeError
  | ArrowNotImplementedError
  | OtherException
  | SystemExit
  | KeyboardInterrupt

record exc =
  exc_class :: exc_class
  message :: string

definition isinstance_Exception :: "exc \<Rightarrow> bool" where
  "isinstance_Exception e = (exc_class e \<notin> {SystemExit, KeyboardInterrupt})"






subsection \<open>normalize\_parquet\_run.py: with\_retries\<close>

definition RETRYABLE_SUBSTRINGS :: "string list" where
  "RETRYABLE_SUBSTRINGS =
     [''oauth2.googleapis.com'', ''NameResolutionError'', ''getaddrinfo failed'',
      ''TransportError'', ''ConnectionError'', ''Max retries exceeded'', ''Read timed out'']"

text \<open>Python's \<open>x in s\<close> on texts.\<close>

fun contains :: "string \<Rightarrow> string \<Rightarrow> bool" where
  "contains x [] = (x = [])"
| "contains x (c # cs) = (take (length x) (c # cs) = x \<or> contains x cs)"

definition is_retryable_error :: "exc \<Rightarrow> bool" where
  "is_retryable_error e = list_ex (\<lambda>x. contains x (message e)) RETRYABLE_SUBSTRINGS"

text \<open>
  \<open>with_retries(fn, attempts, base_sleep, max_sleep)\<close>. The operation \<open>fn\<close> acts on a
  state and returns or raises; \<open>rnd a\<close> is what \<open>random.random()\<close> returns at attempt
  \<open>a\<close>. The result is what the call returns or raises (\<open>Inr None\<close> when the loop body
  never runs), the state, the number of calls of \<open>fn\<close> and the sleeps, in order. The
  handler is \<open>except Exception\<close>: an exception of another kind leaves at once.
\<close>

fun with_retries_loop ::
  "('s \<Rightarrow> (exc + 'a) \<times> 's) \<Rightarrow> (nat \<Rightarrow> rat) \<Rightarrow> nat \<Rightarrow> rat \<Rightarrow> rat \<Rightarrow> nat list \<Rightarrow> 's
     \<Rightarrow> (exc + 'a option) \<times> 's \<times> nat \<times> rat list" where
  "with_retries_loop fn rnd attempts base_sleep max_sleep [] s = (Inr None, s, 0, [])"
| "with_retries_loop fn rnd attempts base_sleep max_sleep (a # as) s =
     (case fn s of
        (Inr r, s') \<Rightarrow> (Inr (Some r), s', 1, [])
      | (Inl e, s') \<Rightarrow>
          if \<not> isinstance_Exception e then (Inl e, s', 1, [])
          else if \<not> is_retryable_error e \<or> a = attempts then (Inl e, s', 1, [])
          else (let sleep = min max_sleep (base_sleep * 2 ^ (a - 1));
                    sleep = sleep * (7 / 10 + rnd a * (6 / 10))
                in case with_retries_loop fn rnd attempts base_sleep max_sleep as s' of
                     (r, s'', n, sleeps) \<Rightarrow> (r, s'', Suc n, sleep # sleeps)))"

definition with_retries ::
  "('s \<Rightarrow> (exc + 'a) \<times> 's) \<Rightarrow> (nat \<Rightarrow> rat) \<Rightarrow> nat \<Rightarrow> rat \<Rightarrow> rat \<Rightarrow> 's
     \<Rightarrow> (exc + 'a option) \<times> 's \<times> nat \<times> rat list" where
  "with_retries fn rnd attempts base_sleep max_sleep s =
     with_retries_loop fn rnd attempts base_sleep max_sleep [1..<attempts + 1] s"


section \<open>Drift normalization (normalize\_parquet\_run.py)\<close>

text \<open>
  A parquet file is its schema (field name and \<open>arrow_type_key\<close> of the field's type, in
  order) and its cell data, which the model keeps as an opaque number. The bucket is a
  list of paths with their files. Each call of the file system takes the next entry of
  \<open>faults\<close>: \<open>Some e\<close> makes the call raise \<open>e\<close>. \<open>io_log\<close> records the files opened.
\<close>

type_synonym schema = "(string \<times> string) list"

record table =
  tschema :: schema
  tdata :: nat

datatype io_event = ReadSchema string | ReadTable string | WriteTable string

record world =
  blobs :: "(string \<times> table) list"
  faults :: "exc option list"
  io_log :: "io_event list"

definition next_fault :: "world \<Rightarrow> exc option \<times> world" where
  "next_fault w = (case faults w of [] \<Rightarrow> (None, w) | f # fs \<Rightarrow> (f, w\<lparr>faults := fs\<rparr>))"

fun put_blob :: "'a \<Rightarrow> 'b \<Rightarrow> ('a \<times> 'b) list \<Rightarrow> ('a \<times> 'b) list" where
  "put_blob p t [] = [(p, t)]"
| "put_blob p t ((q, u) # bs) = (if q = p then (p, t) # bs else (q, u) # put_blob p t bs)"

definition fs_exists :: "string \<Rightarrow> world \<Rightarrow> (exc + bool) \<times> world" where
  "fs_exists p w =
     (case next_fault w of
        (Some e, w') \<Rightarrow> (Inl e, w')
      | (None, w') \<Rightarrow> (Inr (map_of (blobs w') p \<noteq> None), w'))"

definition fs_read_schema :: "string \<Rightarrow> world \<Rightarrow> (exc + schema) \<times> world" where
  "fs_read_schema p w =
     (case next_fault (w\<lparr>io_log := io_log w @ [ReadSchema p]\<rparr>) of
        (Some e, w') \<Rightarrow> (Inl e, w')
      | (None, w') \<Rightarrow>
          (case map_of (blobs w') p of
             None \<Rightarrow> (Inl \<lparr>exc_class = FileNotFoundError, message = p\<rparr>, w')
           | Some t \<Rightarrow> (Inr (tschema t), w')))"

definition fs_read_table :: "string \<Rightarrow> world \<Rightarrow> (exc + table) \<times> world" where
  "fs_read_table p w =
     (case next_fault (w\<lparr>io_log := io_log w @ [ReadTable p]\<rparr>) of
        (Some e, w') \<Rightarrow> (Inl e, w')
      | (None, w') \<Rightarrow>
          (case map_of (blobs w') p of
             None \<Rightarrow> (Inl \<lparr>exc_class = FileNotFoundError, message = p\<rparr>, w')
           | Some t \<Rightarrow> (Inr t, w')))"

definition fs_write_table :: "string \<Rightarrow> table \<Rightarrow> world \<Rightarrow> (exc + unit) \<times> world" where
  "fs_write_table p t w =
     (case next_fault (w\<lparr>io_log := io_log w @ [WriteTable p]\<rparr>) of
        (Some e, w') \<Rightarrow> (Inl e, w')
      | (None, w') \<Rightarrow> (Inr (), w'\<lparr>blobs := put_blob p t (blobs w')\<rparr>))"

subsection \<open>Paths\<close>

text \<open>The characters below 128 that \<open>str.strip()\<close> removes.\<close>

definition is_space :: "char \<Rightarrow> bool" where
  "is_space c =
     (c \<in> set [CHR '' '', CHR 0x09, CHR 0x0A, CHR 0x0B, CHR 0x0C, CHR 0x0D,
                 CHR 0x1C, CHR 0x1D, CHR 0x1E, CHR 0x1F])"

definition strip :: "string \<Rightarrow> string" where
  "strip s = rev (dropWhile is_space (rev (dropWhile is_space s)))"

definition ensure_trailing_slash :: "string \<Rightarrow> string" where
  "ensure_trailing_slash s0 =
     (let s = strip s0;
          s = dropWhile (\<lambda>c. c = CHR ''/'') s
      in if suffix ''/'' s then s else s @ ''/'')"

text \<open>
  \<open>fs.glob(f"{bucket}/{prefix}**/*.parquet")\<close>: the paths under \<open>bucket/prefix\<close> that end
  in \<open>.parquet\<close>. \<open>sorted\<close> orders texts by their characters.
\<close>

definition fs_glob_parquet :: "world \<Rightarrow> string \<Rightarrow> string list" where
  "fs_glob_parquet w stem =
     filter (\<lambda>p. prefix stem p \<and> suffix ''.parquet'' p) (remdups (map fst (blobs w)))"

definition list_parquet_paths :: "world \<Rightarrow> string \<Rightarrow> string \<Rightarrow> string list" where
  "list_parquet_paths w bucket prefix0 =
     (let prefix = ensure_trailing_slash prefix0
      in sort (fs_glob_parquet w (bucket @ ''/'' @ prefix)))"

definition read_schema :: "(nat \<Rightarrow> rat) \<Rightarrow> string \<Rightarrow> world \<Rightarrow> (exc + schema option) \<times> world" where
  "read_schema rnd path w =
     (case with_retries (fs_read_schema path) rnd 8 2 60 w of (r, w', n, sleeps) \<Rightarrow> (r, w'))"

subsection \<open>Drift detection\<close>

text \<open>
  \<open>observed\<close> is a dict from column name to the set of type keys seen, in insertion
  order; \<open>observe\<close> is \<open>observed[name].add(t)\<close> on the defaultdict.
\<close>

fun observe :: "string \<Rightarrow> string \<Rightarrow> (string \<times> string set) list \<Rightarrow> (string \<times> string set) list" where
  "observe k t [] = [(k, {t})]"
| "observe k t ((k', ts) # obs) =
     (if k' = k then (k', insert t ts) # obs else (k', ts) # observe k t obs)"

definition observe_schema ::
  "string set \<Rightarrow> (string \<times> string set) list \<Rightarrow> schema \<Rightarrow> (string \<times> string set) list" where
  "observe_schema exclude_cols observed sch =
     foldl (\<lambda>obs (name, ty). if name \<in> exclude_cols then obs else observe name ty obs)
       observed sch"

definition detect_drifty_columns :: "schema list \<Rightarrow> string set \<Rightarrow> (string \<times> string set) list" where
  "detect_drifty_columns schemas exclude_cols =
     (let observed = foldl (observe_schema exclude_cols) [] schemas
      in filter (\<lambda>(k, v). card v > 1) observed)"

definition SUSPICIOUS_PREFIXES :: "string list" where
  "SUSPICIOUS_PREFIXES = [''is_'', ''has_'', ''key_'', ''cat_'', ''flag_'']"

definition SUSPICIOUS_CONTAINS :: "string list" where
  "SUSPICIOUS_CONTAINS = [''_id'', ''id_'', ''uuid'', ''guid'', ''code'', ''type'', ''search'']"

definition SUSPICIOUS_SUFFIXES :: "string list" where
  "SUSPICIOUS_SUFFIXES = [''_id'', ''_code'', ''_type'', ''_key'']"

definition lower_char :: "char \<Rightarrow> char" where
  "lower_char c =
     (let n = of_char c :: nat in if 65 \<le> n \<and> n \<le> 90 then char_of (n + 32) else c)"

definition looks_suspicious :: "string \<Rightarrow> bool" where
  "looks_suspicious col =
     (let c = map lower_char col
      in if list_ex (\<lambda>x. prefix x c) SUSPICIOUS_PREFIXES then True
         else if list_ex (\<lambda>x. suffix x c) SUSPICIOUS_SUFFIXES then True
         else if list_ex (\<lambda>x. contains x c) SUSPICIOUS_CONTAINS then True
         else False)"

text \<open>
  \<open>cast_selected_to_string\<close>: \<open>cast_error ty\<close> is what \<open>pc.cast(column, pa.string(),
  safe=False)\<close> raises for a column of type key \<open>ty\<close>, if it raises (a parameter: pyarrow
  has no cast to string for some types, nested ones among them). The source casts the
  selected columns in the iteration order of the set; which of several failing columns
  raises is taken here to be the first in schema order.
\<close>

definition cast_selected_to_string ::
  "(string \<Rightarrow> exc option) \<Rightarrow> table \<Rightarrow> string set \<Rightarrow> exc + table" where
  "cast_selected_to_string cast_error t cols =
     (case List.map_filter (\<lambda>(name, ty). if name \<in> cols then cast_error ty else None) (tschema t) of
        e # es \<Rightarrow> Inl e
      | [] \<Rightarrow>
          Inr (t\<lparr>tschema := map (\<lambda>(name, ty). if name \<in> cols then (name, ''string'') else (name, ty))
                               (tschema t)\<rparr>))"

subsection \<open>main\<close>

text \<open>\<open>s.split(",")\<close>, and Python's \<open>xs[:n]\<close>, where a negative \<open>n\<close> counts from the end.\<close>

fun split_on :: "char \<Rightarrow> string \<Rightarrow> string list" where
  "split_on sep [] = [[]]"
| "split_on sep (c # cs) =
     (if c = sep then [] # split_on sep cs
      else (case split_on sep cs of [] \<Rightarrow> [[c]] | x # xs \<Rightarrow> (c # x) # xs))"

definition parse_csv_set :: "string \<Rightarrow> string set" where
  "parse_csv_set s =
     (if s = [] then {} else set (filter (\<lambda>x. x \<noteq> []) (map strip (split_on CHR '','' s))))"

definition slice_to :: "int \<Rightarrow> 'a list \<Rightarrow> 'a list" where
  "slice_to n xs = (if 0 \<le> n then take (nat n) xs else take (length xs - nat (- n)) xs)"

record args =
  arg_bucket :: string
  arg_src_prefix :: string
  arg_dst_prefix :: string
  arg_sample_size :: int
  arg_resume :: bool
  arg_force_string_cols :: string
  arg_exclude_cols :: string
  arg_include_all_suspicious :: bool

record summary =
  sample_files :: "string list"
  drifty :: "(string \<times> string set) list"
  cast_cols :: "string set"
  written :: nat
  skipped :: nat
  failed :: "(string \<times> string) list"

text \<open>
  Phase 1: the schemas of the sample. A file whose schema read raises an \<open>Exception\<close> is
  left out with a warning; an exception of another kind ends the program. (\<open>Inr None\<close> is
  not reached: \<open>with_retries\<close> runs with 8 attempts.)
\<close>

fun read_sample_schemas ::
  "(nat \<Rightarrow> rat) \<Rightarrow> string list \<Rightarrow> world \<Rightarrow> (exc + schema list) \<times> world" where
  "read_sample_schemas rnd [] w = (Inr [], w)"
| "read_sample_schemas rnd (p # ps) w =
     (case read_schema rnd p w of
        (Inr (Some sch), w') \<Rightarrow>
          (case read_sample_schemas rnd ps w' of
             (Inr schemas, w'') \<Rightarrow> (Inr (sch # schemas), w'')
           | (Inl e, w'') \<Rightarrow> (Inl e, w''))
      | (Inr None, w') \<Rightarrow> read_sample_schemas rnd ps w'
      | (Inl e, w') \<Rightarrow>
          if isinstance_Exception e then read_sample_schemas rnd ps w' else (Inl e, w'))"

definition dst_path_of :: "string \<Rightarrow> string \<Rightarrow> string \<Rightarrow> string \<Rightarrow> string" where
  "dst_path_of bucket src_prefix dst_prefix src_path =
     (let rel = drop (length (bucket @ ''/'')) src_path;
          rel_after_src = drop (length src_prefix) rel
      in bucket @ ''/'' @ dst_prefix @ rel_after_src)"

definition process_one ::
  "(string \<Rightarrow> exc option) \<Rightarrow> string set \<Rightarrow> string \<Rightarrow> string \<Rightarrow> world \<Rightarrow> (exc + unit) \<times> world" where
  "process_one cast_error cols src_path dst_path w =
     (case fs_read_table src_path w of
        (Inl e, w') \<Rightarrow> (Inl e, w')
      | (Inr t, w') \<Rightarrow>
          (case cast_selected_to_string cast_error t cols of
             Inl e \<Rightarrow> (Inl e, w')
           | Inr t2 \<Rightarrow> fs_write_table dst_path t2 w'))"

text \<open>
  Phase 2, one file: the body of the loop over \<open>files\<close>, on the state of the pass (the
  bucket, \<open>written\<close>, \<open>skipped\<close>, \<open>failed\<close>). \<open>fs.exists\<close> is called only under \<open>--resume\<close>.
  The handler of the body is \<open>except Exception\<close>: the first component of the result is an
  exception of another kind, which leaves the loop and the program.
\<close>

definition rewrite_file ::
  "bool \<Rightarrow> (nat \<Rightarrow> rat) \<Rightarrow> (string \<Rightarrow> exc option) \<Rightarrow> string set \<Rightarrow> string \<Rightarrow> string
     \<Rightarrow> world \<times> nat \<times> nat \<times> (string \<times> string) list
     \<Rightarrow> exc option \<times> world \<times> nat \<times> nat \<times> (string \<times> string) list" where
  "rewrite_file resume rnd cast_error cols src_path dst_path st =
     (case st of (w, n_written, n_skipped, fails) \<Rightarrow>
        (case (if resume then fs_exists dst_path w else (Inr False, w)) of
           (Inl e, w1) \<Rightarrow>
             if isinstance_Exception e
             then (None, w1, n_written, n_skipped, fails @ [(src_path, message e)])
             else (Some e, w1, n_written, n_skipped, fails)
         | (Inr True, w1) \<Rightarrow> (None, w1, n_written, n_skipped + 1, fails)
         | (Inr False, w1) \<Rightarrow>
             (case with_retries (process_one cast_error cols src_path dst_path) rnd 8 2 60 w1 of
                (Inl e, w2, n, sleeps) \<Rightarrow>
                  if isinstance_Exception e
                  then (None, w2, n_written, n_skipped, fails @ [(src_path, message e)])
                  else (Some e, w2, n_written, n_skipped, fails)
              | (Inr r, w2, n, sleeps) \<Rightarrow> (None, w2, n_written + 1, n_skipped, fails))))"

fun rewrite_files ::
  "args \<Rightarrow> string \<Rightarrow> string \<Rightarrow> (nat \<Rightarrow> rat) \<Rightarrow> (string \<Rightarrow> exc option) \<Rightarrow> string set
     \<Rightarrow> string list \<Rightarrow> world \<times> nat \<times> nat \<times> (string \<times> string) list
     \<Rightarrow> exc option \<times> world \<times> nat \<times> nat \<times> (string \<times> string) list" where
  "rewrite_files a src_prefix dst_prefix rnd cast_error cols [] st = (None, st)"
| "rewrite_files a src_prefix dst_prefix rnd cast_error cols (src_path # files) st =
     (case rewrite_file (arg_resume a) rnd cast_error cols src_path
             (dst_path_of (arg_bucket a) src_prefix dst_prefix src_path) st of
        (Some e, st') \<Rightarrow> (Some e, st')
      | (None, st') \<Rightarrow> rewrite_files a src_prefix dst_prefix rnd cast_error cols files st')"

definition main ::
  "args \<Rightarrow> (nat \<Rightarrow> rat) \<Rightarrow> (string \<Rightarrow> exc option) \<Rightarrow> world \<Rightarrow> (exc + summary) \<times> world" where
  "main a rnd cast_error w =
     (let src_prefix = ensure_trailing_slash (arg_src_prefix a);
          dst_prefix = ensure_trailing_slash (arg_dst_prefix a);
          force_cols = parse_csv_set (arg_force_string_cols a);
          exclude_cols = parse_csv_set (arg_exclude_cols a);
          files = list_parquet_paths w (arg_bucket a) src_prefix
      in if files = []
         then (Inl \<lparr>exc_class = SystemExit,
                    message = ''No parquet found under gs://'' @ arg_bucket a @ ''/'' @ src_prefix\<rparr>,
               w)
         else
           (let sample_n = min (arg_sample_size a) (int (length files));
                sample = slice_to sample_n files
            in case read_sample_schemas rnd sample w of
                 (Inl e, w1) \<Rightarrow> (Inl e, w1)
               | (Inr schemas, w1) \<Rightarrow>
                   (let drifty_cols = detect_drifty_columns schemas exclude_cols;
                        suspicious = set (filter (\<lambda>name. name \<notin> exclude_cols \<and> looks_suspicious name)
                                            (map fst (concat schemas)));
                        cols = ((set (map fst drifty_cols) \<union> force_cols)
                                \<union> (if arg_include_all_suspicious a then suspicious else {}))
                               - exclude_cols
                    in case rewrite_files a src_prefix dst_prefix rnd cast_error cols files
                              (w1, 0, 0, []) of
                         (Some e, w2, n_written, n_skipped, fails) \<Rightarrow> (Inl e, w2)
                       | (None, w2, n_written, n_skipped, fails) \<Rightarrow>
                           (Inr \<lparr>sample_files = sample, drifty = drifty_cols, cast_cols = cols,
                                 written = n_written, skipped = n_skipped, failed = fails\<rparr>,
                            w2))))"

text \<open>A library instance for running the model on concrete inputs.\<close>

definition demo_lib :: pylib where
  "demo_lib = \<lparr>str_of = (\<lambda>v. case v of PBool True \<Rightarrow> ''True'' | PBool False \<Rightarrow> ''False''
                                | PStr s \<Rightarrow> s | POther s \<Rightarrow> s | _ \<Rightarrow> ''<object>''),
              isoformat_utc = (\<lambda>d. ''2024-01-01T00:00:00+00:00''),
              utf8_decode = (\<lambda>bs. if list_all (\<lambda>b. unat b < 128) bs
                                   then Some (map (\<lambda>b. char_of (unat b)) bs) else None),
              json_dumps = (\<lambda>v. ''<json>''),
              isna = (\<lambda>v. False)\<rparr>"

text \<open>A bucket and arguments for running the drift normalizer on concrete inputs.\<close>

definition demo_world :: world where
  "demo_world =
     \<lparr>blobs = [(''b/src/p2.parquet'', \<lparr>tschema = [(''id'', ''string''), (''v'', ''double'')], tdata = 2\<rparr>),
               (''b/src/p1.parquet'', \<lparr>tschema = [(''id'', ''int64''), (''v'', ''double'')], tdata = 1\<rparr>),
               (''b/dst/p1.parquet'', \<lparr>tschema = [(''id'', ''string''), (''v'', ''double'')], tdata = 7\<rparr>)],
      faults = [], io_log = []\<rparr>"


definition demo_args :: args where
  "demo_args =
     \<lparr>arg_bucket = ''b'', arg_src_prefix = ''src'', arg_dst_prefix = ''dst'', arg_sample_size = 300,
      arg_resume = True, arg_force_string_cols = [], arg_exclude_cols = [],
      arg_include_all_suspicious = False\<rparr>"


section \<open>Export orchestrator (export\_to\_gcs.py)\<close>

text \<open>
  A document is its value of the sort field and the rest of it. Every document has the
  sort field, its value is not \<open>None\<close>, and the values are totally ordered: \<open>'k\<close> is the type
  of these values with the order in which MongoDB sorts and compares them. \<open>key_value\<close> is
  the Python value of a key, which \<open>encode_sort_value\<close> takes; \<open>key_gt k v\<close> is whether a
  document with the key \<open>k\<close> matches the query \<open>{"$gt": v}\<close> for a Python value \<open>v\<close> that was
  read back from the checkpoint. Both are parameters of the model.
\<close>

record ('k, 'v) doc =
  sort_field :: 'k
  body :: 'v

record 'k keys =
  key_value :: "'k \<Rightarrow> pyval"
  key_gt :: "'k \<Rightarrow> pyval \<Rightarrow> bool"

record config =
  GCS_BUCKET :: string
  BATCH_SIZE :: nat
  MAX_DOCS :: int

text \<open>
  The variable \<open>last_sort_value\<close> holds what \<open>decode_sort_value\<close> returned for the
  checkpoint (\<open>Loaded\<close>; \<open>Loaded PNone\<close> is \<open>None\<close>, no cursor), or the sort field of the
  last document of a batch (\<open>DocKey\<close>). The three variables of the loop are its state.
\<close>

datatype 'k cursor = Loaded pyval | DocKey 'k

record 'k progress =
  chunk_idx :: int
  exported_docs :: int
  last_sort_value :: "'k cursor"

text \<open>
  The checkpoint dict, as the JSON blob holds it: the cursor is in it as the payload of
  \<open>encode_sort_value\<close>. \<open>json.dumps\<close> followed by \<open>json.loads\<close> gives a payload back as it
  was; the wall-clock field \<open>updated_utc\<close> is left out, as are those of the manifest.
\<close>

record ckpt =
  ckpt_chunk_idx :: int
  ckpt_exported_docs :: int
  ckpt_last_sort_value :: payload

record manifest =
  m_chunks :: int
  m_exported_docs :: int
  m_batch_size :: nat
  m_max_docs :: int

text \<open>
  The bucket of a run holds the chunk blobs by chunk index (the path
  \<open>part-{chunk_idx:06d}.parquet\<close> names the index), the checkpoint and the manifest.
\<close>

record ('k, 'v) gcs =
  part_blobs :: "(int \<times> ('k, 'v) doc list) list"
  checkpoint_blob :: "ckpt option"
  manifest_blob :: "manifest option"

text \<open>
  What a run does, in order: the trace of \<open>export_to_gcs\<close>. \<open>SaveCheckpoint\<close> carries the
  values of the loop variables of which the checkpoint is saved.
\<close>

datatype ('k, 'v) event =
    Find "'k cursor" "('k, 'v) doc list"
  | BlobExists int bool
  | WriteParquet int "('k, 'v) doc list"
  | Upload int "('k, 'v) doc list"
  | RemoveLocal int
  | SaveCheckpoint "'k progress"
  | UploadManifest manifest

text \<open>\<open>MAX_DOCS = 0\<close> means no cap, and \<open>limit(0)\<close> is no limit for MongoDB.\<close>

definition mongo_limit :: "nat \<Rightarrow> 'a list \<Rightarrow> 'a list" where
  "mongo_limit n xs = (if n = 0 then xs else take n xs)"

text \<open>
  The query of an iteration: \<open>{}\<close> when \<open>last_sort_value\<close> is \<open>None\<close>, else
  \<open>{SORT_FIELD: {"$gt": last_sort_value}}\<close>; \<open>matches ks cur k\<close> is whether a document
  with the key \<open>k\<close> matches it.
\<close>

definition matches :: "('k::linorder) keys \<Rightarrow> 'k cursor \<Rightarrow> 'k \<Rightarrow> bool" where
  "matches ks cur k =
     (case cur of
        Loaded v \<Rightarrow> v = PNone \<or> key_gt ks k v
      | DocKey k0 \<Rightarrow> k0 < k)"

definition find_batch ::
  "config \<Rightarrow> ('k::linorder) keys \<Rightarrow> 'k cursor \<Rightarrow> ('k, 'v) doc list \<Rightarrow> ('k, 'v) doc list" where
  "find_batch cfg ks last_value col =
     mongo_limit (BATCH_SIZE cfg)
       (sort_key sort_field (filter (\<lambda>d. matches ks last_value (sort_field d)) col))"

definition blob_exists :: "('k, 'v) gcs \<Rightarrow> int \<Rightarrow> bool" where
  "blob_exists g idx = (map_of (part_blobs g) idx \<noteq> None)"

definition upload_file :: "('k, 'v) gcs \<Rightarrow> int \<Rightarrow> ('k, 'v) doc list \<Rightarrow> ('k, 'v) gcs" where
  "upload_file g idx rows = g\<lparr>part_blobs := put_blob idx rows (part_blobs g)\<rparr>"

definition load_checkpoint :: "pylib \<Rightarrow> ('k, 'v) gcs \<Rightarrow> ckpt" where
  "load_checkpoint lib g =
     (case checkpoint_blob g of
        None \<Rightarrow> \<lparr>ckpt_chunk_idx = 0, ckpt_exported_docs = 0,
                 ckpt_last_sort_value = encode_sort_value lib PNone\<rparr>
      | Some data \<Rightarrow> data)"

definition save_checkpoint :: "('k, 'v) gcs \<Rightarrow> ckpt \<Rightarrow> ('k, 'v) gcs" where
  "save_checkpoint g c = g\<lparr>checkpoint_blob := Some c\<rparr>"

text \<open>The dict \<open>ckpt\<close> that an iteration builds from the loop variables and saves.\<close>

definition cursor_value :: "'k keys \<Rightarrow> 'k cursor \<Rightarrow> pyval" where
  "cursor_value ks cur = (case cur of Loaded v \<Rightarrow> v | DocKey k \<Rightarrow> key_value ks k)"

definition checkpoint_of :: "pylib \<Rightarrow> 'k keys \<Rightarrow> 'k progress \<Rightarrow> ckpt" where
  "checkpoint_of lib ks st =
     \<lparr>ckpt_chunk_idx = chunk_idx st, ckpt_exported_docs = exported_docs st,
      ckpt_last_sort_value = encode_sort_value lib (cursor_value ks (last_sort_value st))\<rparr>"

text \<open>The documents a query after the cursor can still return: the measure of the loop.\<close>

definition remaining :: "'k cursor \<Rightarrow> ('k::linorder, 'v) doc list \<Rightarrow> nat" where
  "remaining last_value col =
     (case last_value of
        Loaded v \<Rightarrow> Suc (length col)
      | DocKey k \<Rightarrow> length (filter (\<lambda>d. k < sort_field d) col))"

lemma find_batch_subset:
  "set (find_batch cfg ks lv col) \<subseteq> {d \<in> set col. matches ks lv (sort_field d)}"
  by (auto simp: find_batch_def mongo_limit_def dest: in_set_takeD)

lemma remaining_decreases:
  assumes "find_batch cfg ks lv col \<noteq> []"
  shows "remaining (DocKey (sort_field (last (find_batch cfg ks lv col)))) col < remaining lv col"
proof -
  let ?d = "last (find_batch cfg ks lv col)"
  from assms have "?d \<in> set (find_batch cfg ks lv col)" by simp
  with find_batch_subset [of cfg ks lv col]
  have d: "?d \<in> set col" "matches ks lv (sort_field ?d)"
    by auto
  show ?thesis
  proof (cases lv)
    case (Loaded v)
    have "length (filter (\<lambda>x. sort_field ?d < sort_field x) col) \<le> length col"
      by simp
    then have "length (filter (\<lambda>x. sort_field ?d < sort_field x) col) < Suc (length col)"
      by (rule le_imp_less_Suc)
    with Loaded show ?thesis by (simp add: remaining_def)
  next
    case (DocKey k)
    let ?xs = "filter (\<lambda>x. k < sort_field x) col"
    from d(2) DocKey have lt: "k < sort_field ?d" by (simp add: matches_def)
    have "filter (\<lambda>x. sort_field ?d < sort_field x) col = filter (\<lambda>x. sort_field ?d < sort_field x) ?xs"
      using lt by (auto intro!: filter_cong)
    moreover have "length (filter (\<lambda>x. sort_field ?d < sort_field x) ?xs) < length ?xs"
      using d(1) lt by (intro length_filter_less [of ?d]) auto
    ultimately show ?thesis using DocKey by (simp add: remaining_def)
  qed
qed

function export_loop ::
  "config \<Rightarrow> pylib \<Rightarrow> ('k::linorder) keys \<Rightarrow> ('k, 'v) doc list \<Rightarrow> ('k, 'v) gcs \<Rightarrow> 'k progress
     \<Rightarrow> ('k, 'v) event list \<times> ('k, 'v) gcs \<times> 'k progress" where
  "export_loop cfg lib ks col g st =
     (if MAX_DOCS cfg \<noteq> 0 \<and> exported_docs st \<ge> MAX_DOCS cfg then ([], g, st)
      else
        (let batch = find_batch cfg ks (last_sort_value st) col in
         if batch = [] then ([Find (last_sort_value st) batch], g, st)
         else
           (let idx = chunk_idx st + 1;
                st' = \<lparr>chunk_idx = idx,
                       exported_docs = exported_docs st + int (length batch),
                       last_sort_value = DocKey (sort_field (last batch))\<rparr>
            in if blob_exists g idx then
                 (case export_loop cfg lib ks col (save_checkpoint g (checkpoint_of lib ks st')) st' of
                    (evs, g', st'') \<Rightarrow>
                      (Find (last_sort_value st) batch # BlobExists idx True
                         # SaveCheckpoint st' # evs, g', st''))
               else
                 (case export_loop cfg lib ks col
                         (save_checkpoint (upload_file g idx batch) (checkpoint_of lib ks st')) st' of
                    (evs, g', st'') \<Rightarrow>
                      (Find (last_sort_value st) batch # BlobExists idx False
                         # WriteParquet idx batch # Upload idx batch # RemoveLocal idx
                         # SaveCheckpoint st' # evs, g', st'')))))"
  by pat_completeness auto
termination
  by (relation "measure (\<lambda>(cfg, lib, ks, col, g, st). remaining (last_sort_value st) col)")
     (auto simp: remaining_decreases)

text \<open>
  What ends \<open>export_to_gcs\<close> before the loop: \<open>SystemExit\<close> with a message, or what
  \<open>decode_sort_value\<close> raises on the payload of the checkpoint.
\<close>

datatype failure = Exit string | Raised error

definition export_to_gcs ::
  "config \<Rightarrow> pylib \<Rightarrow> ('k::linorder) keys \<Rightarrow> ('k, 'v) doc list \<Rightarrow> ('k, 'v) gcs
     \<Rightarrow> failure + ('k, 'v) event list \<times> ('k, 'v) gcs" where
  "export_to_gcs cfg lib ks col g =
     (if GCS_BUCKET cfg = [] then Inl (Exit ''ERROR: Set env var GCS_BUCKET.'')
      else
        (let data = load_checkpoint lib g
         in case decode_sort_value (ckpt_last_sort_value data) of
              Inl e \<Rightarrow> Inl (Raised e)
            | Inr v \<Rightarrow>
                (case export_loop cfg lib ks col g
                        \<lparr>chunk_idx = ckpt_chunk_idx data, exported_docs = ckpt_exported_docs data,
                         last_sort_value = Loaded v\<rparr> of
                   (evs, g', st) \<Rightarrow>
                     (let manifest = \<lparr>m_chunks = chunk_idx st, m_exported_docs = exported_docs st,
                                      m_batch_size = BATCH_SIZE cfg, m_max_docs = MAX_DOCS cfg\<rparr>
                      in Inr (evs @ [UploadManifest manifest],
                              g'\<lparr>manifest_blob := Some manifest\<rparr>)))))"

text \<open>
  Configurations, a collection and buckets for running the exporter. The keys are
  numbers, in the checkpoint as \<open>int\<close> (\<open>int_keys\<close>), or instants, in the checkpoint as
  \<open>datetime\<close> (\<open>datetime_keys\<close>): MongoDB compares a key with a value of its own kind by
  the order of the keys, and no date is greater than a text.
\<close>

definition demo_cfg :: config where
  "demo_cfg = \<lparr>GCS_BUCKET = ''bucket'', BATCH_SIZE = 2, MAX_DOCS = 3\<rparr>"

definition demo_cfg_all :: config where
  "demo_cfg_all = \<lparr>GCS_BUCKET = ''bucket'', BATCH_SIZE = 3, MAX_DOCS = 0\<rparr>"

definition int_keys :: "nat keys" where
  "int_keys =
     \<lparr>key_value = (\<lambda>k. PInt (int k)),
      key_gt = (\<lambda>k v. case v of PInt i \<Rightarrow> i < int k | _ \<Rightarrow> False)\<rparr>"

definition datetime_keys :: "nat keys" where
  "datetime_keys =
     \<lparr>key_value = (\<lambda>k. PDatetime (Datetime (int k) (Some 0))),
      key_gt = (\<lambda>k v. case v of PDatetime d \<Rightarrow> posix_micros d < int k | _ \<Rightarrow> False)\<rparr>"

definition doc_a :: "(nat, string) doc" where
  "doc_a = \<lparr>sort_field = 1, body = ''a''\<rparr>"

definition doc_b :: "(nat, string) doc" where
  "doc_b = \<lparr>sort_field = 2, body = ''b''\<rparr>"

definition doc_c :: "(nat, string) doc" where
  "doc_c = \<lparr>sort_field = 3, body = ''c''\<rparr>"

definition doc_d :: "(nat, string) doc" where
  "doc_d = \<lparr>sort_field = 4, body = ''d''\<rparr>"

definition doc_e :: "(nat, string) doc" where
  "doc_e = \<lparr>sort_field = 5, body = ''e''\<rparr>"

definition demo_col :: "(nat, string) doc list" where
  "demo_col = [doc_c, doc_a, doc_b, doc_e, doc_d]"

definition empty_gcs :: "(nat, string) gcs" where
  "empty_gcs = \<lparr>part_blobs = [], checkpoint_blob = None, manifest_blob = None\<rparr>"

text \<open>The bucket of a run that stopped after the upload of chunk 1, before its checkpoint.\<close>

definition crashed_gcs :: "(nat, string) gcs" where
  "crashed_gcs = \<lparr>part_blobs = [(1, [doc_a, doc_b])], checkpoint_blob = None, manifest_blob = None\<rparr>"

text \<open>The bucket that a run with the cap 3 and the batch size 2 leaves.\<close>

definition capped_gcs :: "(nat, string) gcs" where
  "capped_gcs =
     \<lparr>part_blobs = [(1, [doc_a, doc_b]), (2, [doc_c, doc_d])],
      checkpoint_blob =
        Some \<lparr>ckpt_chunk_idx = 2, ckpt_exported_docs = 4,
              ckpt_last_sort_value = \<lparr>ptype = ''int'', pvalue = PInt 4\<rparr>\<rparr>,
      manifest_blob =
        Some \<lparr>m_chunks = 2, m_exported_docs = 4, m_batch_size = 2, m_max_docs = 3\<rparr>\<rparr>"

text \<open>The bucket that a complete run without a cap leaves.\<close>

definition complete_gcs :: "(nat, string) gcs" where
  "complete_gcs =
     \<lparr>part_blobs = [(1, [doc_a, doc_b, doc_c]), (2, [doc_d, doc_e])],
      checkpoint_blob =
        Some \<lparr>ckpt_chunk_idx = 2, ckpt_exported_docs = 5,
              ckpt_last_sort_value = \<lparr>ptype = ''int'', pvalue = PInt 5\<rparr>\<rparr>,
      manifest_blob =
        Some \<lparr>m_chunks = 2, m_exported_docs = 5, m_batch_size = 3, m_max_docs = 0\<rparr>\<rparr>"

text \<open>The same bucket when the keys are instants.\<close>

definition complete_datetime_gcs :: "(nat, string) gcs" where
  "complete_datetime_gcs =
     complete_gcs\<lparr>checkpoint_blob :=
       Some \<lparr>ckpt_chunk_idx = 2, ckpt_exported_docs = 5,
             ckpt_last_sort_value =
               \<lparr>ptype = ''datetime'', pvalue = PStr ''2024-01-01T00:00:00+00:00''\<rparr>\<rparr>\<rparr>"

text \<open>The state from which a run on a bucket without a checkpoint starts.\<close>

definition fresh :: "nat progress" where
  "fresh = \<lparr>chunk_idx = 0, exported_docs = 0, last_sort_value = Loaded PNone\<rparr>"

text \<open>
  One iteration of the loop: at the state \<open>c\<close> the cap is not reached, the query after the
  cursor of \<open>c\<close> returns the batch, which is not empty, and \<open>c'\<close> is the state of which the
  iteration saves the checkpoint.
\<close>

definition advances ::
  "config \<Rightarrow> ('k::linorder) keys \<Rightarrow> ('k, 'v) doc list \<Rightarrow> 'k progress \<Rightarrow> ('k, 'v) doc list
     \<Rightarrow> 'k progress \<Rightarrow> bool" where
  "advances cfg ks col c batch c' \<longleftrightarrow>
     \<not> (MAX_DOCS cfg \<noteq> 0 \<and> MAX_DOCS cfg \<le> exported_docs c) \<and>
     batch = find_batch cfg ks (last_sort_value c) col \<and> batch \<noteq> [] \<and>
     c' = \<lparr>chunk_idx = chunk_idx c + 1,
           exported_docs = exported_docs c + int (length batch),
           last_sort_value = DocKey (sort_field (last batch))\<rparr>"

text \<open>
  Reading a trace: the states whose checkpoints were saved, the batches exported, the
  chunk indices uploaded (each in order), and the bucket after the events of a trace.
\<close>

fun saved_checkpoints :: "('k, 'v) event list \<Rightarrow> 'k progress list" where
  "saved_checkpoints [] = []"
| "saved_checkpoints (SaveCheckpoint c # evs) = c # saved_checkpoints evs"
| "saved_checkpoints (e # evs) = saved_checkpoints evs"

fun exported_batches :: "('k, 'v) event list \<Rightarrow> ('k, 'v) doc list list" where
  "exported_batches [] = []"
| "exported_batches (Find v batch # evs) =
     (if batch = [] then exported_batches evs else batch # exported_batches evs)"
| "exported_batches (e # evs) = exported_batches evs"


fun apply_event :: "pylib \<Rightarrow> 'k keys \<Rightarrow> ('k, 'v) gcs \<Rightarrow> ('k, 'v) event \<Rightarrow> ('k, 'v) gcs" where
  "apply_event lib ks g (Upload idx rows) = upload_file g idx rows"
| "apply_event lib ks g (SaveCheckpoint c) = save_checkpoint g (checkpoint_of lib ks c)"
| "apply_event lib ks g (UploadManifest m) = g\<lparr>manifest_blob := Some m\<rparr>"
| "apply_event lib ks g e = g"

text \<open>The checkpoint in the bucket is not ahead of the chunk blobs in the bucket.\<close>

definition durable :: "('k, 'v) gcs \<Rightarrow> bool" where
  "durable g =
     (case checkpoint_blob g of
        None \<Rightarrow> True
      | Some c \<Rightarrow> list_all (\<lambda>i. blob_exists g i) [1..ckpt_chunk_idx c])"

section \<open>Sort value round trip\<close>

lemma hex_val_hex_digit: "n < 16 \<Longrightarrow> hex_val (hex_digit n) = Some n"
proof -
  assume "n < 16"
  have "list_all (\<lambda>n. hex_val (hex_digit n) = Some n) [0..<16]"
    by code_simp
  with \<open>n < 16\<close> show ?thesis
    by (simp add: list_all_iff)
qed

lemma byte_of_nibbles: "(of_nat (16 * (unat b div 16) + unat b mod 16) :: 8 word) = b"
  by simp

lemma hex_digit_not_whitespace: "n < 16 \<Longrightarrow> \<not> ascii_whitespace (hex_digit n)"
proof -
  assume "n < 16"
  have "list_all (\<lambda>n. \<not> ascii_whitespace (hex_digit n)) [0..<16]"
    by code_simp
  with \<open>n < 16\<close> show ?thesis
    by (simp add: list_all_iff)
qed

lemma fromhex_hexlify: "fromhex (hexlify bs) = Some bs"
proof (induction bs)
  case Nil
  show ?case by (simp add: hexlify_def)
next
  case (Cons b bs)
  have less: "unat b div 16 < 16"
  proof -
    have "unat b < 256" using unsigned_less [of b] by simp
    then show ?thesis by simp
  qed
  have hi: "hex_val (hex_digit (unat b div 16)) = Some (unat b div 16)"
    using less by (rule hex_val_hex_digit)
  have lo: "hex_val (hex_digit (unat b mod 16)) = Some (unat b mod 16)"
    by (rule hex_val_hex_digit) simp
  have sp: "\<not> ascii_whitespace (hex_digit (unat b div 16))"
    using less by (rule hex_digit_not_whitespace)
  from Cons have tl: "fromhex (concat (map (\<lambda>b. [hex_digit (unat b div 16),
      hex_digit (unat b mod 16)]) bs)) = Some bs"
    by (simp add: hexlify_def)
  show ?case
    using hi lo sp tl byte_of_nibbles [of b] by (simp add: hexlify_def)
qed

lemma length_hexlify: "length (hexlify bs) = 2 * length bs"
  by (induction bs) (simp_all add: hexlify_def)

lemma ObjectId_str: "length oid = 12 \<Longrightarrow> ObjectId (PStr (str_ObjectId oid)) = Inr (PObjectId oid)"
  by (simp add: ObjectId_def str_ObjectId_def length_hexlify fromhex_hexlify)


text \<open>
  C4, as stated, fails: a datetime sort value is decoded to its ISO-8601 text, not to a
  datetime.
\<close>

theorem decode_encode_datetime_counterexample:
  "supported_sort_value (PDatetime (Datetime 0 (Some 0))) \<and>
   decode_sort_value (encode_sort_value demo_lib (PDatetime (Datetime 0 (Some 0))))
     \<noteq> Inr (PDatetime (Datetime 0 (Some 0)))"
  by (simp add: decode_sort_value_def encode_sort_value_def)

text \<open>
  C4 (amended): for a sort value of kind none, ObjectId, int, float, bool or str, decoding
  the encoded payload gives the value back; for a datetime it gives the ISO-8601 UTC text
  that the payload stores.
\<close>

theorem decode_encode_sort_value:
  "supported_sort_value v \<Longrightarrow>
   decode_sort_value (encode_sort_value lib v) =
     Inr (case v of PDatetime d \<Rightarrow> PStr (isoformat_utc lib d) | _ \<Rightarrow> v)"
  by (cases v) (simp_all add: decode_sort_value_def encode_sort_value_def ObjectId_str)

theorem decode_encode_sort_value_witness:
  "supported_sort_value (PObjectId [101, 74, 31, 0, 255, 16, 9, 128, 3, 77, 200, 1]) \<and>
   decode_sort_value (encode_sort_value demo_lib
       (PObjectId [101, 74, 31, 0, 255, 16, 9, 128, 3, 77, 200, 1])) =
     Inr (PObjectId [101, 74, 31, 0, 255, 16, 9, 128, 3, 77, 200, 1])"
  using decode_encode_sort_value [of "PObjectId [101, 74, 31, 0, 255, 16, 9, 128, 3, 77, 200, 1]" demo_lib]
  by simp

section \<open>Normalizer\<close>

lemma jsonify_scalar_None: "jsonify_scalar lib x = None \<longleftrightarrow> x = PNone \<or> isna lib x"
  by (cases x) (simp_all add: jsonify_scalar_def split: option.splits)

lemma text_or_null_cell_of: "text_or_null (cell_of r)"
  by (cases r) (simp_all add: cell_of_def)

text \<open>
  C3, as stated, fails: a column that pandas holds with a native dtype is not an object
  column, so its numbers are not rendered as text.
\<close>

theorem normalize_numeric_counterexample:
  "\<not> all_text_or_null (normalize_df_for_parquet demo_lib
        [\<lparr>cname = ''n'', cdtype = Int64, cells = [PInt 1, PInt 2]\<rparr>])"
  by (simp add: all_text_or_null_def normalize_df_for_parquet_def)

text \<open>
  C3 (amended): the normalizer keeps the columns, their names and dtypes. In a column of
  dtype object every value is rendered as text, and is null exactly when it is None or
  missing for pandas; a column of a native dtype is left as it is. So every column of the
  normalized frame of a well-typed frame holds values of one kind.
\<close>

theorem normalize_df_for_parquet_columns:
  "list_all2 (\<lambda>c c'. cname c' = cname c \<and> cdtype c' = cdtype c \<and>
        (if cdtype c = ObjectDtype
         then cells c' = map (\<lambda>x. cell_of (jsonify_scalar lib x)) (cells c) \<and>
              list_all text_or_null (cells c') \<and>
              list_all2 (\<lambda>x y. (y = PNone) = (x = PNone \<or> isna lib x)) (cells c) (cells c')
         else c' = c))
      df (normalize_df_for_parquet lib df) \<and>
   (well_typed df \<longrightarrow> list_all column_uniform (normalize_df_for_parquet lib df))"
proof
  have cell: "(cell_of (jsonify_scalar lib x) = PNone) = (x = PNone \<or> isna lib x)" for x
    using jsonify_scalar_None [of lib x]
    by (cases "jsonify_scalar lib x") (simp_all add: cell_of_def)
  show "list_all2 (\<lambda>c c'. cname c' = cname c \<and> cdtype c' = cdtype c \<and>
        (if cdtype c = ObjectDtype
         then cells c' = map (\<lambda>x. cell_of (jsonify_scalar lib x)) (cells c) \<and>
              list_all text_or_null (cells c') \<and>
              list_all2 (\<lambda>x y. (y = PNone) = (x = PNone \<or> isna lib x)) (cells c) (cells c')
         else c' = c))
      df (normalize_df_for_parquet lib df)"
    by (induction df)
       (simp_all add: normalize_df_for_parquet_def list_all_iff text_or_null_cell_of
          list_all2_map2 list_all2_same cell)
  have col: "column_uniform (if cdtype c = ObjectDtype
        then c\<lparr>cells := map (\<lambda>x. cell_of (jsonify_scalar lib x)) (cells c)\<rparr> else c)"
    if "list_all (fits_dtype (cdtype c)) (cells c)" for c
    using that by (simp add: column_uniform_def list_all_iff text_or_null_cell_of)
  show "well_typed df \<longrightarrow> list_all column_uniform (normalize_df_for_parquet lib df)"
    unfolding well_typed_def normalize_df_for_parquet_def
    by (induction df) (simp_all add: col del: fits_dtype.simps)
qed

theorem normalize_df_for_parquet_columns_witness:
  "well_typed [\<lparr>cname = ''utm'', cdtype = ObjectDtype, cells = [PBool True, PStr ''x'', PNone]\<rparr>,
               \<lparr>cname = ''n'', cdtype = Int64, cells = [PInt 1, PInt 2, PInt 3]\<rparr>] \<and>
   normalize_df_for_parquet demo_lib
     [\<lparr>cname = ''utm'', cdtype = ObjectDtype, cells = [PBool True, PStr ''x'', PNone]\<rparr>,
      \<lparr>cname = ''n'', cdtype = Int64, cells = [PInt 1, PInt 2, PInt 3]\<rparr>] =
     [\<lparr>cname = ''utm'', cdtype = ObjectDtype, cells = [PStr ''True'', PStr ''x'', PNone]\<rparr>,
      \<lparr>cname = ''n'', cdtype = Int64, cells = [PInt 1, PInt 2, PInt 3]\<rparr>] \<and>
   list_all column_uniform (normalize_df_for_parquet demo_lib
     [\<lparr>cname = ''utm'', cdtype = ObjectDtype, cells = [PBool True, PStr ''x'', PNone]\<rparr>,
      \<lparr>cname = ''n'', cdtype = Int64, cells = [PInt 1, PInt 2, PInt 3]\<rparr>])"
  using normalize_df_for_parquet_columns [of demo_lib
     "[\<lparr>cname = ''utm'', cdtype = ObjectDtype, cells = [PBool True, PStr ''x'', PNone]\<rparr>,
       \<lparr>cname = ''n'', cdtype = Int64, cells = [PInt 1, PInt 2, PInt 3]\<rparr>]"]
  by (simp add: well_typed_def normalize_df_for_parquet_def jsonify_scalar_def cell_of_def
      demo_lib_def)

section \<open>Retries\<close>






section \<open>Schema drift report\<close>






















lemma demo_main:
  "main demo_args (\<lambda>a. 0) (\<lambda>ty. None) demo_world =
     (Inr \<lparr>sample_files = [''b/src/p1.parquet'', ''b/src/p2.parquet''],
         drifty = [(''id'', {''string'', ''int64''})], cast_cols = {''id''},
         written = 1, skipped = 1, failed = []\<rparr>,
      \<lparr>blobs =
         [(''b/src/p2.parquet'', \<lparr>tschema = [(''id'', ''string''), (''v'', ''double'')], tdata = 2\<rparr>),
          (''b/src/p1.parquet'', \<lparr>tschema = [(''id'', ''int64''), (''v'', ''double'')], tdata = 1\<rparr>),
          (''b/dst/p1.parquet'', \<lparr>tschema = [(''id'', ''string''), (''v'', ''double'')], tdata = 7\<rparr>),
          (''b/dst/p2.parquet'', \<lparr>tschema = [(''id'', ''string''), (''v'', ''double'')], tdata = 2\<rparr>)],
       faults = [],
       io_log = [ReadSchema ''b/src/p1.parquet'', ReadSchema ''b/src/p2.parquet'',
                 ReadTable ''b/src/p2.parquet'', WriteTable ''b/dst/p2.parquet'']\<rparr>)"
  by code_simp

lemma demo_files:
  "list_parquet_paths demo_world ''b'' (ensure_trailing_slash ''src'') =
     [''b/src/p1.parquet'', ''b/src/p2.parquet'']"
  by code_simp




section \<open>Rewrite pass\<close>

lemma next_fault_frame: "next_fault w = (x, w') \<Longrightarrow> blobs w' = blobs w \<and> io_log w' = io_log w"
  by (auto simp: next_fault_def split: list.splits)

lemma map_of_put_blob: "map_of (put_blob p t bs) = (map_of bs)(p \<mapsto> t)"
  by (induction bs) (auto simp: fun_eq_iff)

lemma fs_exists_frame:
  "fs_exists p w = (r, w') \<Longrightarrow>
   blobs w' = blobs w \<and> io_log w' = io_log w \<and> (\<forall>b. r = Inr b \<longrightarrow> b = (map_of (blobs w) p \<noteq> None))"
  by (auto simp: fs_exists_def dest!: next_fault_frame split: prod.splits option.splits)

lemma fs_read_table_frame:
  "fs_read_table p w = (r, w') \<Longrightarrow> blobs w' = blobs w \<and> io_log w' = io_log w @ [ReadTable p]"
  by (auto simp: fs_read_table_def dest!: next_fault_frame split: prod.splits option.splits)

lemma fs_read_schema_frame:
  "fs_read_schema p w = (r, w') \<Longrightarrow> blobs w' = blobs w \<and> io_log w' = io_log w @ [ReadSchema p]"
  by (auto simp: fs_read_schema_def dest!: next_fault_frame split: prod.splits option.splits)

lemma fs_write_table_frame:
  "fs_write_table p t w = (r, w') \<Longrightarrow>
   io_log w' = io_log w @ [WriteTable p] \<and> (\<forall>q. q \<noteq> p \<longrightarrow> map_of (blobs w') q = map_of (blobs w) q)"
  by (auto simp: fs_write_table_def map_of_put_blob dest!: next_fault_frame split: prod.splits option.splits)

text \<open>An invariant of the state that every call of the operation keeps holds after the retries.\<close>

lemma with_retries_loop_invariant:
  assumes step: "\<And>s r s'. Q s \<Longrightarrow> fn s = (r, s') \<Longrightarrow> Q s'"
  shows "Q s \<Longrightarrow> with_retries_loop fn rnd attempts base_sleep max_sleep as s = (r, s', n, sleeps)
         \<Longrightarrow> Q s'"
proof (induction as arbitrary: s r s' n sleeps)
  case Nil
  then show ?case by simp
next
  case (Cons a as)
  obtain x s1 where fn: "fn s = (x, s1)" by (cases "fn s")
  with Cons.prems(1) have q1: "Q s1" by (rule step)
  show ?case
  proof (cases x)
    case (Inr v)
    with Cons.prems(2) fn q1 show ?thesis by simp
  next
    case (Inl e)
    show ?thesis
    proof (cases "\<not> isinstance_Exception e \<or> \<not> is_retryable_error e \<or> a = attempts")
      case True
      with Cons.prems(2) fn Inl q1 show ?thesis by (auto split: if_splits)
    next
      case False
      obtain r2 s2 n2 sl2 where rec:
        "with_retries_loop fn rnd attempts base_sleep max_sleep as s1 = (r2, s2, n2, sl2)"
        by (metis prod_cases4)
      from Cons.IH [OF q1 rec] have "Q s2" .
      moreover from Cons.prems(2) fn Inl False rec have "s' = s2" by (simp add: Let_def)
      ultimately show ?thesis by simp
    qed
  qed
qed

text \<open>
  The facts about a destination \<open>d\<close> present in the bucket and a source \<open>f\<close> that the
  rewrite pass keeps: \<open>d\<close> holds the same file, \<open>d\<close> was not written, \<open>f\<close> was not read.
\<close>

lemma process_one_keeps:
  assumes "map_of (blobs w) d = Some t" "WriteTable d \<notin> set (io_log w)" "ReadTable f \<notin> set (io_log w)"
    and "src \<noteq> f" "dst \<noteq> d" and "process_one cast_error cols src dst w = (r, w')"
  shows "map_of (blobs w') d = Some t \<and> WriteTable d \<notin> set (io_log w') \<and> ReadTable f \<notin> set (io_log w')"
proof (cases "fs_read_table src w")
  case (Pair x w1)
  note rd = fs_read_table_frame [OF Pair]
  show ?thesis
  proof (cases x)
    case (Inl e)
    with assms Pair rd show ?thesis by (auto simp: process_one_def)
  next
    case (Inr tab)
    note tab = this
    show ?thesis
    proof (cases "cast_selected_to_string cast_error tab cols")
      case (Inl e)
      with assms(6) Pair tab have "w' = w1" by (simp add: process_one_def)
      with assms(1-4) rd show ?thesis by auto
    next
      case (Inr t2)
      with assms(6) Pair tab have wr: "fs_write_table dst t2 w1 = (r, w')"
        by (simp add: process_one_def)
      note fw = fs_write_table_frame [OF wr]
      from assms(1-5) rd fw show ?thesis by auto
    qed
  qed
qed

lemma rewrite_file_keeps:
  assumes "map_of (blobs w) d = Some t" "WriteTable d \<notin> set (io_log w)" "ReadTable f \<notin> set (io_log w)"
    and "dst = d \<or> src \<noteq> f"
    and "rewrite_file True rnd cast_error cols src dst (w, nw, ns, fl) = (ex, w', nw', ns', fl')"
  shows "map_of (blobs w') d = Some t \<and> WriteTable d \<notin> set (io_log w') \<and> ReadTable f \<notin> set (io_log w')"
proof (cases "fs_exists dst w")
  case (Pair x w1)
  note fe = fs_exists_frame [OF Pair]
  show ?thesis
  proof (cases x)
    case (Inl e)
    with assms Pair fe show ?thesis by (auto simp: rewrite_file_def split: if_splits)
  next
    case (Inr b)
    show ?thesis
    proof (cases b)
      case True
      with assms Pair fe Inr show ?thesis by (auto simp: rewrite_file_def)
    next
      case False
      with fe Inr assms(1) have nd: "dst \<noteq> d" by auto
      with assms(4) have nf: "src \<noteq> f" by simp
      obtain r2 w2 n2 sl2 where run:
        "with_retries (process_one cast_error cols src dst) rnd 8 2 60 w1 = (r2, w2, n2, sl2)"
        by (metis prod_cases4)
      have q1: "map_of (blobs w1) d = Some t \<and> WriteTable d \<notin> set (io_log w1) \<and>
          ReadTable f \<notin> set (io_log w1)"
        using assms(1-3) fe by simp
      have step: "map_of (blobs v') d = Some t \<and> WriteTable d \<notin> set (io_log v') \<and>
          ReadTable f \<notin> set (io_log v')"
        if "map_of (blobs v) d = Some t \<and> WriteTable d \<notin> set (io_log v) \<and>
          ReadTable f \<notin> set (io_log v)" "process_one cast_error cols src dst v = (x, v')" for v x v'
        using process_one_keeps [of v d t f src dst cast_error cols x v'] that nf nd by blast
      have q2: "map_of (blobs w2) d = Some t \<and> WriteTable d \<notin> set (io_log w2) \<and>
          ReadTable f \<notin> set (io_log w2)"
        by (rule with_retries_loop_invariant [where Q = "\<lambda>w. map_of (blobs w) d = Some t \<and>
              WriteTable d \<notin> set (io_log w) \<and> ReadTable f \<notin> set (io_log w)",
              OF step q1 run [unfolded with_retries_def]])
      from assms(5) Pair Inr False run have "w' = w2"
        by (auto simp: rewrite_file_def split: sum.splits if_splits)
      with q2 show ?thesis by simp
    qed
  qed
qed

lemma rewrite_files_keeps:
  assumes "arg_resume a"
  shows "map_of (blobs w) (dst_path_of (arg_bucket a) sp dp f) = Some t \<Longrightarrow>
    WriteTable (dst_path_of (arg_bucket a) sp dp f) \<notin> set (io_log w) \<Longrightarrow>
    ReadTable f \<notin> set (io_log w) \<Longrightarrow>
    rewrite_files a sp dp rnd cast_error cols files (w, nw, ns, fl) = (ex, w', nw', ns', fl') \<Longrightarrow>
    map_of (blobs w') (dst_path_of (arg_bucket a) sp dp f) = Some t \<and>
    WriteTable (dst_path_of (arg_bucket a) sp dp f) \<notin> set (io_log w') \<and>
    ReadTable f \<notin> set (io_log w')"
proof (induction files arbitrary: w nw ns fl)
  case Nil
  then show ?case by simp
next
  case (Cons src files)
  obtain ex1 w1 nw1 ns1 fl1 where one:
    "rewrite_file True rnd cast_error cols src (dst_path_of (arg_bucket a) sp dp src) (w, nw, ns, fl)
       = (ex1, w1, nw1, ns1, fl1)"
    by (metis prod_cases5)
  have side: "dst_path_of (arg_bucket a) sp dp src = dst_path_of (arg_bucket a) sp dp f \<or> src \<noteq> f"
    by auto
  note k = rewrite_file_keeps [OF Cons.prems(1-3) side one]
  show ?case
  proof (cases ex1)
    case None
    with Cons.prems(4) one assms have
      "rewrite_files a sp dp rnd cast_error cols files (w1, nw1, ns1, fl1) = (ex, w', nw', ns', fl')"
      by simp
    with Cons.IH k show ?thesis by blast
  next
    case (Some e)
    with Cons.prems(4) one assms have "w' = w1" by simp
    with k show ?thesis by simp
  qed
qed

lemma read_schema_frame:
  "read_schema rnd p w = (r, w') \<Longrightarrow>
   blobs w' = blobs w \<and> set (io_log w') \<subseteq> set (io_log w) \<union> range ReadSchema"
proof -
  assume a: "read_schema rnd p w = (r, w')"
  obtain r2 w2 n2 sl2 where run:
    "with_retries (fs_read_schema p) rnd 8 2 60 w = (r2, w2, n2, sl2)"
    by (metis prod_cases4)
  have "blobs w2 = blobs w \<and> set (io_log w2) \<subseteq> set (io_log w) \<union> range ReadSchema"
    by (rule with_retries_loop_invariant [where Q = "\<lambda>v. blobs v = blobs w \<and>
          set (io_log v) \<subseteq> set (io_log w) \<union> range ReadSchema",
          OF _ _ run [unfolded with_retries_def]])
       (auto dest!: fs_read_schema_frame)
  with a run show ?thesis by (simp add: read_schema_def)
qed

lemma read_sample_schemas_frame:
  "read_sample_schemas rnd ps w = (r, w') \<Longrightarrow>
   blobs w' = blobs w \<and> set (io_log w') \<subseteq> set (io_log w) \<union> range ReadSchema"
proof (induction ps arbitrary: w r w')
  case Nil
  then show ?case by auto
next
  case (Cons p ps)
  obtain x w1 where rs: "read_schema rnd p w = (x, w1)" by (cases "read_schema rnd p w")
  note f1 = read_schema_frame [OF rs]
  obtain r2 w2 where rec: "read_sample_schemas rnd ps w1 = (r2, w2)"
    by (cases "read_sample_schemas rnd ps w1")
  note f2 = Cons.IH [OF rec]
  from Cons.prems rs rec have "w' = w2 \<or> w' = w1"
    by (auto split: sum.splits option.splits if_splits)
  with f1 f2 show ?case by auto
qed

text \<open>
  C5 (amended): under \<open>--resume\<close>, a source file whose mirrored destination path is in
  the bucket when the pass starts is not read by the rewrite pass, its destination is not
  written, and the destination holds the same file afterwards; so only source files
  missing at the destination are read, transformed and written.
\<close>

theorem rewrite_pass_resume:
  assumes res: "arg_resume a"
    and run: "main a rnd cast_error w = (r, w')"
    and present: "map_of (blobs w) (dst_path_of (arg_bucket a) (ensure_trailing_slash (arg_src_prefix a))
        (ensure_trailing_slash (arg_dst_prefix a)) f) = Some t"
    and log: "ReadTable f \<notin> set (io_log w)"
      "WriteTable (dst_path_of (arg_bucket a) (ensure_trailing_slash (arg_src_prefix a))
        (ensure_trailing_slash (arg_dst_prefix a)) f) \<notin> set (io_log w)"
  shows "ReadTable f \<notin> set (io_log w') \<and>
    WriteTable (dst_path_of (arg_bucket a) (ensure_trailing_slash (arg_src_prefix a))
        (ensure_trailing_slash (arg_dst_prefix a)) f) \<notin> set (io_log w') \<and>
    map_of (blobs w') (dst_path_of (arg_bucket a) (ensure_trailing_slash (arg_src_prefix a))
        (ensure_trailing_slash (arg_dst_prefix a)) f) = Some t"
proof -
  let ?sp = "ensure_trailing_slash (arg_src_prefix a)"
  let ?dp = "ensure_trailing_slash (arg_dst_prefix a)"
  let ?d = "dst_path_of (arg_bucket a) ?sp ?dp f"
  let ?files = "list_parquet_paths w (arg_bucket a) ?sp"
  show ?thesis
  proof (cases "?files = []")
    case True
    with run have "w' = w" by (simp add: main_def Let_def)
    with present log show ?thesis by simp
  next
    case False
    let ?sample = "slice_to (min (arg_sample_size a) (int (length ?files))) ?files"
    obtain x w1 where p1: "read_sample_schemas rnd ?sample w = (x, w1)"
      by (cases "read_sample_schemas rnd ?sample w")
    note f1 = read_sample_schemas_frame [OF p1]
    from f1 present log have q1: "map_of (blobs w1) ?d = Some t" "WriteTable ?d \<notin> set (io_log w1)"
      "ReadTable f \<notin> set (io_log w1)"
      by auto
    show ?thesis
    proof (cases x)
      case (Inl e)
      with run False p1 have "w' = w1" by (simp add: main_def Let_def)
      with q1 show ?thesis by simp
    next
      case (Inr schemas)
      with run False p1 obtain cols ex nw ns fl where
        p2: "rewrite_files a ?sp ?dp rnd cast_error cols ?files (w1, 0, 0, []) = (ex, w', nw, ns, fl)"
        by (auto simp: main_def Let_def split: prod.splits option.splits)
      from rewrite_files_keeps [OF res q1 p2] show ?thesis by simp
    qed
  qed
qed


theorem rewrite_pass_resume_witness:
  "arg_resume demo_args \<and>
   main demo_args (\<lambda>a. 0) (\<lambda>ty. None) demo_world =
     (Inr \<lparr>sample_files = [''b/src/p1.parquet'', ''b/src/p2.parquet''],
         drifty = [(''id'', {''string'', ''int64''})], cast_cols = {''id''},
         written = 1, skipped = 1, failed = []\<rparr>,
      \<lparr>blobs =
         [(''b/src/p2.parquet'', \<lparr>tschema = [(''id'', ''string''), (''v'', ''double'')], tdata = 2\<rparr>),
          (''b/src/p1.parquet'', \<lparr>tschema = [(''id'', ''int64''), (''v'', ''double'')], tdata = 1\<rparr>),
          (''b/dst/p1.parquet'', \<lparr>tschema = [(''id'', ''string''), (''v'', ''double'')], tdata = 7\<rparr>),
          (''b/dst/p2.parquet'', \<lparr>tschema = [(''id'', ''string''), (''v'', ''double'')], tdata = 2\<rparr>)],
       faults = [],
       io_log = [ReadSchema ''b/src/p1.parquet'', ReadSchema ''b/src/p2.parquet'',
                 ReadTable ''b/src/p2.parquet'', WriteTable ''b/dst/p2.parquet'']\<rparr>) \<and>
   dst_path_of (arg_bucket demo_args) (ensure_trailing_slash (arg_src_prefix demo_args))
     (ensure_trailing_slash (arg_dst_prefix demo_args)) ''b/src/p1.parquet'' = ''b/dst/p1.parquet'' \<and>
   map_of (blobs demo_world) ''b/dst/p1.parquet'' =
     Some \<lparr>tschema = [(''id'', ''string''), (''v'', ''double'')], tdata = 7\<rparr> \<and>
   ReadTable ''b/src/p1.parquet'' \<notin> set (io_log demo_world) \<and>
   WriteTable ''b/dst/p1.parquet'' \<notin> set (io_log demo_world) \<and>
   ReadTable ''b/src/p1.parquet'' \<notin> set (io_log (snd (main demo_args (\<lambda>a. 0) (\<lambda>ty. None) demo_world))) \<and>
   WriteTable ''b/dst/p1.parquet'' \<notin> set (io_log (snd (main demo_args (\<lambda>a. 0) (\<lambda>ty. None) demo_world))) \<and>
   map_of (blobs (snd (main demo_args (\<lambda>a. 0) (\<lambda>ty. None) demo_world))) ''b/dst/p1.parquet'' =
     Some \<lparr>tschema = [(''id'', ''string''), (''v'', ''double'')], tdata = 7\<rparr>"
proof -
  let ?d = "dst_path_of (arg_bucket demo_args) (ensure_trailing_slash (arg_src_prefix demo_args))
     (ensure_trailing_slash (arg_dst_prefix demo_args)) ''b/src/p1.parquet''"
  let ?t = "\<lparr>tschema = [(''id'', ''string''), (''v'', ''double'')], tdata = 7\<rparr>"
  have res: "arg_resume demo_args" by (simp add: demo_args_def)
  have d: "?d = ''b/dst/p1.parquet''" by code_simp
  have present: "map_of (blobs demo_world) ?d = Some ?t"
    unfolding d by (simp add: demo_world_def)
  have l1: "ReadTable ''b/src/p1.parquet'' \<notin> set (io_log demo_world)"
    by (simp add: demo_world_def)
  have l2: "WriteTable ?d \<notin> set (io_log demo_world)"
    by (simp add: demo_world_def)
  have run: "main demo_args (\<lambda>a. 0) (\<lambda>ty. None) demo_world =
      (fst (main demo_args (\<lambda>a. 0) (\<lambda>ty. None) demo_world), snd (main demo_args (\<lambda>a. 0) (\<lambda>ty. None) demo_world))"
    by simp
  note k = rewrite_pass_resume [OF res run present l1 l2]
  show ?thesis
    using res k present l1 l2 unfolding d by (intro conjI) (simp_all add: demo_main)
qed

text \<open>
  C5, as stated, fails: without \<open>--resume\<close> the pass does not look at the destination, so
  a source file whose destination exists is read and its destination written again.
\<close>

theorem rewrite_without_resume_counterexample:
  "map_of (blobs demo_world) ''b/dst/p1.parquet'' \<noteq> None \<and>
   dst_path_of ''b'' (ensure_trailing_slash ''src'') (ensure_trailing_slash ''dst'')
     ''b/src/p1.parquet'' = ''b/dst/p1.parquet'' \<and>
   ReadTable ''b/src/p1.parquet''
     \<in> set (io_log (snd (main (demo_args\<lparr>arg_resume := False\<rparr>) (\<lambda>a. 0) (\<lambda>ty. None) demo_world))) \<and>
   WriteTable ''b/dst/p1.parquet''
     \<in> set (io_log (snd (main (demo_args\<lparr>arg_resume := False\<rparr>) (\<lambda>a. 0) (\<lambda>ty. None) demo_world))) \<and>
   map_of (blobs (snd (main (demo_args\<lparr>arg_resume := False\<rparr>) (\<lambda>a. 0) (\<lambda>ty. None) demo_world)))
       ''b/dst/p1.parquet''
     \<noteq> map_of (blobs demo_world) ''b/dst/p1.parquet''"
  by (intro conjI) code_simp+

section \<open>Export loop\<close>

declare export_loop.simps [simp del]

lemma loop_capped:
  "MAX_DOCS cfg \<noteq> 0 \<and> MAX_DOCS cfg \<le> exported_docs st \<Longrightarrow> export_loop cfg lib ks col g st = ([], g, st)"
  by (subst export_loop.simps) simp

lemma loop_exhausted:
  "\<not> (MAX_DOCS cfg \<noteq> 0 \<and> MAX_DOCS cfg \<le> exported_docs st) \<Longrightarrow>
   find_batch cfg ks (last_sort_value st) col = [] \<Longrightarrow>
   export_loop cfg lib ks col g st = ([Find (last_sort_value st) []], g, st)"
  by (subst export_loop.simps) simp

lemma loop_skip:
  assumes "\<not> (MAX_DOCS cfg \<noteq> 0 \<and> MAX_DOCS cfg \<le> exported_docs st)"
    and "find_batch cfg ks (last_sort_value st) col = batch" "batch \<noteq> []"
    and "st1 = \<lparr>chunk_idx = chunk_idx st + 1,
                exported_docs = exported_docs st + int (length batch),
                last_sort_value = DocKey (sort_field (last batch))\<rparr>"
    and "blob_exists g (chunk_idx st + 1)"
    and "export_loop cfg lib ks col (save_checkpoint g (checkpoint_of lib ks st1)) st1 = (evs, g', st')"
  shows "export_loop cfg lib ks col g st =
     (Find (last_sort_value st) batch # BlobExists (chunk_idx st + 1) True # SaveCheckpoint st1 # evs,
      g', st')"
  using assms by (subst export_loop.simps) (simp add: Let_def)

lemma loop_upload:
  assumes "\<not> (MAX_DOCS cfg \<noteq> 0 \<and> MAX_DOCS cfg \<le> exported_docs st)"
    and "find_batch cfg ks (last_sort_value st) col = batch" "batch \<noteq> []"
    and "st1 = \<lparr>chunk_idx = chunk_idx st + 1,
                exported_docs = exported_docs st + int (length batch),
                last_sort_value = DocKey (sort_field (last batch))\<rparr>"
    and "\<not> blob_exists g (chunk_idx st + 1)"
    and "export_loop cfg lib ks col (save_checkpoint (upload_file g (chunk_idx st + 1) batch) (checkpoint_of lib ks st1)) st1
           = (evs, g', st')"
  shows "export_loop cfg lib ks col g st =
     (Find (last_sort_value st) batch # BlobExists (chunk_idx st + 1) False
        # WriteParquet (chunk_idx st + 1) batch # Upload (chunk_idx st + 1) batch
        # RemoveLocal (chunk_idx st + 1) # SaveCheckpoint st1 # evs,
      g', st')"
  using assms by (subst export_loop.simps) (simp add: Let_def)

text \<open>
  Induction over the iterations of the loop: a property of a run follows from its four
  cases, the two that go on having the property for the rest of the run.
\<close>

lemma export_loop_induct [consumes 1, case_names capped exhausted skip upload]:
  assumes run: "export_loop cfg lib ks col g st = (evs, g', st')"
    and capped: "\<And>g st. MAX_DOCS cfg \<noteq> 0 \<and> MAX_DOCS cfg \<le> exported_docs st \<Longrightarrow> P g st [] g st"
    and exhausted: "\<And>g st. \<not> (MAX_DOCS cfg \<noteq> 0 \<and> MAX_DOCS cfg \<le> exported_docs st) \<Longrightarrow>
        find_batch cfg ks (last_sort_value st) col = [] \<Longrightarrow> P g st [Find (last_sort_value st) []] g st"
    and skip: "\<And>g st batch st1 evs g' st'.
        \<not> (MAX_DOCS cfg \<noteq> 0 \<and> MAX_DOCS cfg \<le> exported_docs st) \<Longrightarrow>
        find_batch cfg ks (last_sort_value st) col = batch \<Longrightarrow> batch \<noteq> [] \<Longrightarrow>
        st1 = \<lparr>chunk_idx = chunk_idx st + 1,
                exported_docs = exported_docs st + int (length batch),
                last_sort_value = DocKey (sort_field (last batch))\<rparr> \<Longrightarrow>
        blob_exists g (chunk_idx st + 1) \<Longrightarrow>
        export_loop cfg lib ks col (save_checkpoint g (checkpoint_of lib ks st1)) st1 = (evs, g', st') \<Longrightarrow>
        P (save_checkpoint g (checkpoint_of lib ks st1)) st1 evs g' st' \<Longrightarrow>
        P g st (Find (last_sort_value st) batch # BlobExists (chunk_idx st + 1) True
                  # SaveCheckpoint st1 # evs) g' st'"
    and upload: "\<And>g st batch st1 evs g' st'.
        \<not> (MAX_DOCS cfg \<noteq> 0 \<and> MAX_DOCS cfg \<le> exported_docs st) \<Longrightarrow>
        find_batch cfg ks (last_sort_value st) col = batch \<Longrightarrow> batch \<noteq> [] \<Longrightarrow>
        st1 = \<lparr>chunk_idx = chunk_idx st + 1,
                exported_docs = exported_docs st + int (length batch),
                last_sort_value = DocKey (sort_field (last batch))\<rparr> \<Longrightarrow>
        \<not> blob_exists g (chunk_idx st + 1) \<Longrightarrow>
        export_loop cfg lib ks col (save_checkpoint (upload_file g (chunk_idx st + 1) batch) (checkpoint_of lib ks st1)) st1
          = (evs, g', st') \<Longrightarrow>
        P (save_checkpoint (upload_file g (chunk_idx st + 1) batch) (checkpoint_of lib ks st1)) st1 evs g' st' \<Longrightarrow>
        P g st (Find (last_sort_value st) batch # BlobExists (chunk_idx st + 1) False
                  # WriteParquet (chunk_idx st + 1) batch # Upload (chunk_idx st + 1) batch
                  # RemoveLocal (chunk_idx st + 1) # SaveCheckpoint st1 # evs) g' st'"
  shows "P g st evs g' st'"
  using run
proof (induction "remaining (last_sort_value st) col" arbitrary: g st evs g' st' rule: less_induct)
  case less
  show ?case
  proof (cases "MAX_DOCS cfg \<noteq> 0 \<and> MAX_DOCS cfg \<le> exported_docs st")
    case True
    with less.prems capped [OF True, of g] show ?thesis by (auto simp: loop_capped)
  next
    case nc: False
    let ?batch = "find_batch cfg ks (last_sort_value st) col"
    let ?idx = "chunk_idx st + 1"
    let ?st1 = "\<lparr>chunk_idx = chunk_idx st + 1,
                exported_docs = exported_docs st + int (length ?batch),
                last_sort_value = DocKey (sort_field (last ?batch))\<rparr>"
    show ?thesis
    proof (cases "?batch = []")
      case True
      with less.prems nc exhausted [OF nc True, of g] show ?thesis by (auto simp: loop_exhausted)
    next
      case ne: False
      from remaining_decreases [OF ne]
      have smaller: "remaining (last_sort_value ?st1) col < remaining (last_sort_value st) col"
        by simp
      show ?thesis
      proof (cases "blob_exists g ?idx")
        case True
        obtain evs1 g1 st2 where rec:
          "export_loop cfg lib ks col (save_checkpoint g (checkpoint_of lib ks ?st1)) ?st1 = (evs1, g1, st2)"
          by (metis prod_cases3)
        note ih = less.hyps [OF smaller rec]
        from loop_skip [OF nc refl ne refl True rec] less.prems
        have "evs = Find (last_sort_value st) ?batch # BlobExists ?idx True # SaveCheckpoint ?st1 # evs1"
          "g' = g1" "st' = st2" by simp_all
        with skip [OF nc refl ne refl True rec ih] show ?thesis by simp
      next
        case False
        obtain evs1 g1 st2 where rec:
          "export_loop cfg lib ks col (save_checkpoint (upload_file g ?idx ?batch) (checkpoint_of lib ks ?st1)) ?st1 = (evs1, g1, st2)"
          by (metis prod_cases3)
        note ih = less.hyps [OF smaller rec]
        from loop_upload [OF nc refl ne refl False rec] less.prems
        have "evs = Find (last_sort_value st) ?batch # BlobExists ?idx False
            # WriteParquet ?idx ?batch # Upload ?idx ?batch # RemoveLocal ?idx
            # SaveCheckpoint ?st1 # evs1"
          "g' = g1" "st' = st2" by simp_all
        with upload [OF nc refl ne refl False rec ih] show ?thesis by simp
      qed
    qed
  qed
qed

lemma find_batch_after:
  assumes "find_batch cfg ks lv col = batch" "batch \<noteq> []"
  shows "matches ks lv (sort_field (last batch))" "last batch \<in> set col"
proof -
  from assms have "last batch \<in> set (find_batch cfg ks lv col)" by auto
  with find_batch_subset [of cfg ks lv col]
  show "matches ks lv (sort_field (last batch))" "last batch \<in> set col" by auto
qed

lemma chain_step:
  assumes "R c b c1" and "\<forall>i < length cs. R ((c1 # cs) ! i) (bs ! i) (cs ! i)"
  shows "\<forall>i < length (c1 # cs). R ((c # c1 # cs) ! i) ((b # bs) ! i) ((c1 # cs) ! i)"
proof (intro allI impI)
  fix i assume "i < length (c1 # cs)"
  then show "R ((c # c1 # cs) ! i) ((b # bs) ! i) ((c1 # cs) ! i)"
    using assms by (cases i) simp_all
qed

lemma loop_chain:
  assumes "export_loop cfg lib ks col g st = (evs, g', st')"
  shows "length (exported_batches evs) = length (saved_checkpoints evs) \<and>
    (\<forall>i < length (saved_checkpoints evs).
       advances cfg ks col ((st # saved_checkpoints evs) ! i) (exported_batches evs ! i)
         (saved_checkpoints evs ! i))"
  using assms
proof (induction g st evs g' st' rule: export_loop_induct)
  case (capped g st)
  show ?case by simp
next
  case (exhausted g st)
  show ?case by simp
next
  case (skip g st batch st1 evs g' st')
  from skip(1-4) have adv: "advances cfg ks col st batch st1"
    by (simp add: advances_def)
  have s: "saved_checkpoints (Find (last_sort_value st) batch # BlobExists (chunk_idx st + 1) True
        # SaveCheckpoint st1 # evs) = st1 # saved_checkpoints evs"
    and b: "exported_batches (Find (last_sort_value st) batch # BlobExists (chunk_idx st + 1) True
        # SaveCheckpoint st1 # evs) = batch # exported_batches evs"
    using skip(3) by simp_all
  from skip.IH have ih: "length (exported_batches evs) = length (saved_checkpoints evs)"
    "\<forall>i < length (saved_checkpoints evs).
       advances cfg ks col ((st1 # saved_checkpoints evs) ! i) (exported_batches evs ! i)
         (saved_checkpoints evs ! i)"
    by blast+
  from chain_step [where R = "advances cfg ks col", OF adv ih(2)] ih(1)
  show ?case unfolding s b by simp
next
  case (upload g st batch st1 evs g' st')
  from upload(1-4) have adv: "advances cfg ks col st batch st1"
    by (simp add: advances_def)
  have s: "saved_checkpoints (Find (last_sort_value st) batch # BlobExists (chunk_idx st + 1) False
        # WriteParquet (chunk_idx st + 1) batch # Upload (chunk_idx st + 1) batch
        # RemoveLocal (chunk_idx st + 1) # SaveCheckpoint st1 # evs) = st1 # saved_checkpoints evs"
    and b: "exported_batches (Find (last_sort_value st) batch # BlobExists (chunk_idx st + 1) False
        # WriteParquet (chunk_idx st + 1) batch # Upload (chunk_idx st + 1) batch
        # RemoveLocal (chunk_idx st + 1) # SaveCheckpoint st1 # evs) = batch # exported_batches evs"
    using upload(3) by simp_all
  from upload.IH have ih: "length (exported_batches evs) = length (saved_checkpoints evs)"
    "\<forall>i < length (saved_checkpoints evs).
       advances cfg ks col ((st1 # saved_checkpoints evs) ! i) (exported_batches evs ! i)
         (saved_checkpoints evs ! i)"
    by blast+
  from chain_step [where R = "advances cfg ks col", OF adv ih(2)] ih(1)
  show ?case unfolding s b by simp
qed


lemma loop_final:
  assumes "export_loop cfg lib ks col g st = (evs, g', st')"
  shows "(MAX_DOCS cfg \<noteq> 0 \<and> MAX_DOCS cfg \<le> exported_docs st') \<or>
         find_batch cfg ks (last_sort_value st') col = []"
  using assms
proof (induction g st evs g' st' rule: export_loop_induct)
  case (capped g st)
  then show ?case by simp
next
  case (exhausted g st)
  then show ?case by simp
next
  case (skip g st batch st1 evs g' st')
  from skip.IH show ?case .
next
  case (upload g st batch st1 evs g' st')
  from upload.IH show ?case .
qed

lemma loop_final_state:
  assumes "export_loop cfg lib ks col g st = (evs, g', st')"
  shows "st' = last (st # saved_checkpoints evs)"
  using assms
proof (induction g st evs g' st' rule: export_loop_induct)
  case (skip g st batch st1 evs g' st')
  from skip.IH show ?case by simp
next
  case (upload g st batch st1 evs g' st')
  from upload.IH show ?case by simp
qed simp_all

lemma loop_bucket:
  assumes "export_loop cfg lib ks col g st = (evs, g', st')"
  shows "g' = foldl (apply_event lib ks) g evs"
  using assms
proof (induction g st evs g' st' rule: export_loop_induct)
  case (skip g st batch st1 evs g' st')
  from skip.IH show ?case by simp
next
  case (upload g st batch st1 evs g' st')
  from upload.IH show ?case by simp
qed simp_all

lemma length_find_batch: "0 < BATCH_SIZE cfg \<Longrightarrow> length (find_batch cfg ks lv col) \<le> BATCH_SIZE cfg"
  by (simp add: find_batch_def mongo_limit_def)

lemma loop_cap_bound:
  assumes "export_loop cfg lib ks col g st = (evs, g', st')"
    and "0 < MAX_DOCS cfg" "0 < BATCH_SIZE cfg"
  shows "exported_docs st < MAX_DOCS cfg + int (BATCH_SIZE cfg) \<Longrightarrow>
         exported_docs st' < MAX_DOCS cfg + int (BATCH_SIZE cfg)"
  using assms(1)
proof (induction g st evs g' st' rule: export_loop_induct)
  case (skip g st batch st1 evs g' st')
  from length_find_batch [OF assms(3), of ks "last_sort_value st" col] skip(2)
  have "length batch \<le> BATCH_SIZE cfg" by simp
  with skip(1,4) assms(2) have "exported_docs st1 < MAX_DOCS cfg + int (BATCH_SIZE cfg)"
    by simp
  then show ?case by (rule skip.IH)
next
  case (upload g st batch st1 evs g' st')
  from length_find_batch [OF assms(3), of ks "last_sort_value st" col] upload(2)
  have "length batch \<le> BATCH_SIZE cfg" by simp
  with upload(1,4) assms(2) have "exported_docs st1 < MAX_DOCS cfg + int (BATCH_SIZE cfg)"
    by simp
  then show ?case by (rule upload.IH)
qed simp_all

lemma loop_head:
  assumes "export_loop cfg lib ks col g st = (evs, g', st')"
  shows "evs = [] \<or> (\<exists>v b evs'. evs = Find v b # evs')"
  using assms by (induction g st evs g' st' rule: export_loop_induct) simp_all

lemma loop_indices:
  assumes "export_loop cfg lib ks col g st = (evs, g', st')"
  shows "(\<forall>i b. BlobExists i b \<in> set evs \<longrightarrow> chunk_idx st < i) \<and>
         (\<forall>i rows. Upload i rows \<in> set evs \<longrightarrow> chunk_idx st < i) \<and>
         (\<forall>i rows. WriteParquet i rows \<in> set evs \<longrightarrow> chunk_idx st < i)"
  using assms
proof (induction g st evs g' st' rule: export_loop_induct)
  case (skip g st batch st1 evs g' st')
  from skip.IH skip(4) show ?case by fastforce
next
  case (upload g st batch st1 evs g' st')
  from upload.IH upload(4) show ?case by fastforce
qed simp_all

lemma loop_skip_no_upload:
  assumes "export_loop cfg lib ks col g st = (evs, g', st')"
  shows "\<forall>i. BlobExists i True \<in> set evs \<longrightarrow>
           (\<forall>rows. Upload i rows \<notin> set evs \<and> WriteParquet i rows \<notin> set evs)"
  using assms
proof (induction g st evs g' st' rule: export_loop_induct)
  case (skip g st batch st1 evs g' st')
  from loop_indices [OF skip(6)] skip(4)
  have later: "\<forall>i rows. Upload i rows \<in> set evs \<longrightarrow> chunk_idx st + 1 < i"
    "\<forall>i rows. WriteParquet i rows \<in> set evs \<longrightarrow> chunk_idx st + 1 < i"
    by simp_all
  with skip.IH show ?case by fastforce
next
  case (upload g st batch st1 evs g' st')
  from loop_indices [OF upload(6)] upload(4)
  have later: "\<forall>i b. BlobExists i b \<in> set evs \<longrightarrow> chunk_idx st + 1 < i"
    by simp
  with upload.IH show ?case by fastforce
qed simp_all

lemma loop_save_preceded:
  assumes "export_loop cfg lib ks col g st = (evs, g', st')"
  shows "\<forall>q c post. evs = q @ SaveCheckpoint c # post \<longrightarrow>
      (\<exists>q'. q = q' @ [BlobExists (chunk_idx c) True]) \<or>
      (\<exists>q' rows. q = q' @ [Upload (chunk_idx c) rows, RemoveLocal (chunk_idx c)])"
  using assms
proof (induction g st evs g' st' rule: export_loop_induct)
  case (skip g st batch st1 evs g' st')
  show ?case
  proof (intro allI impI)
    fix q c post
    assume eq: "Find (last_sort_value st) batch # BlobExists (chunk_idx st + 1) True
        # SaveCheckpoint st1 # evs = q @ SaveCheckpoint c # post"
    let ?B = "[Find (last_sort_value st) batch, BlobExists (chunk_idx st + 1) True]"
    from eq have "?B @ SaveCheckpoint st1 # evs = q @ SaveCheckpoint c # post" by simp
    then consider (here) "q = ?B" "c = st1"
      | (later) q2 where "q = ?B @ SaveCheckpoint st1 # q2" "evs = q2 @ SaveCheckpoint c # post"
      by (auto simp: append_eq_append_conv2 append_eq_Cons_conv Cons_eq_append_conv)
    then show "(\<exists>q'. q = q' @ [BlobExists (chunk_idx c) True]) \<or>
      (\<exists>q' rows. q = q' @ [Upload (chunk_idx c) rows, RemoveLocal (chunk_idx c)])"
    proof cases
      case here
      with skip(4) show ?thesis by simp
    next
      case later
      with skip.IH have "(\<exists>q'. q2 = q' @ [BlobExists (chunk_idx c) True]) \<or>
        (\<exists>q' rows. q2 = q' @ [Upload (chunk_idx c) rows, RemoveLocal (chunk_idx c)])"
        by blast
      with later(1) show ?thesis by auto
    qed
  qed
next
  case (upload g st batch st1 evs g' st')
  show ?case
  proof (intro allI impI)
    fix q c post
    let ?B = "[Find (last_sort_value st) batch, BlobExists (chunk_idx st + 1) False,
        WriteParquet (chunk_idx st + 1) batch, Upload (chunk_idx st + 1) batch,
        RemoveLocal (chunk_idx st + 1)]"
    assume "Find (last_sort_value st) batch # BlobExists (chunk_idx st + 1) False
        # WriteParquet (chunk_idx st + 1) batch # Upload (chunk_idx st + 1) batch
        # RemoveLocal (chunk_idx st + 1) # SaveCheckpoint st1 # evs = q @ SaveCheckpoint c # post"
    then have "?B @ SaveCheckpoint st1 # evs = q @ SaveCheckpoint c # post" by simp
    then consider (here) "q = ?B" "c = st1"
      | (later) q2 where "q = ?B @ SaveCheckpoint st1 # q2" "evs = q2 @ SaveCheckpoint c # post"
      by (auto simp: append_eq_append_conv2 append_eq_Cons_conv Cons_eq_append_conv)
    then show "(\<exists>q'. q = q' @ [BlobExists (chunk_idx c) True]) \<or>
      (\<exists>q' rows. q = q' @ [Upload (chunk_idx c) rows, RemoveLocal (chunk_idx c)])"
    proof cases
      case here
      with upload(4) show ?thesis by simp
    next
      case later
      with upload.IH have "(\<exists>q'. q2 = q' @ [BlobExists (chunk_idx c) True]) \<or>
        (\<exists>q' rows. q2 = q' @ [Upload (chunk_idx c) rows, RemoveLocal (chunk_idx c)])"
        by blast
      with later(1) show ?thesis by auto
    qed
  qed
qed (simp_all add: Cons_eq_append_conv)


lemma blob_exists_upload: "blob_exists (upload_file g idx rows) i \<longleftrightarrow> i = idx \<or> blob_exists g i"
  by (simp add: blob_exists_def upload_file_def map_of_put_blob)

lemma blob_exists_save: "blob_exists (save_checkpoint g c) i = blob_exists g i"
  by (simp add: blob_exists_def save_checkpoint_def)

lemma durable_iff:
  "durable g \<longleftrightarrow>
     (\<forall>c. checkpoint_blob g = Some c \<longrightarrow> (\<forall>i. 1 \<le> i \<and> i \<le> ckpt_chunk_idx c \<longrightarrow> blob_exists g i))"
  by (auto simp: durable_def list_all_iff split: option.splits)

text \<open>
  What holds at the head of every iteration: the bucket is durable, and the chunks up to
  the loop's own chunk index are in the bucket.
\<close>

lemma loop_prefix_durable:
  assumes "export_loop cfg lib ks col g st = (evs, g', st')"
  shows "durable g \<Longrightarrow> (\<forall>i. 1 \<le> i \<and> i \<le> chunk_idx st \<longrightarrow> blob_exists g i) \<Longrightarrow>
         (\<forall>p. prefix p evs \<longrightarrow> durable (foldl (apply_event lib ks) g p))"
  using assms
proof (induction g st evs g' st' rule: export_loop_induct)
  case (capped g st)
  then show ?case by simp
next
  case (exhausted g st)
  then show ?case by (auto simp: prefix_Cons)
next
  case (skip g st batch st1 evs g' st')
  let ?g1 = "save_checkpoint g (checkpoint_of lib ks st1)"
  have parts: "\<forall>i. 1 \<le> i \<and> i \<le> chunk_idx st1 \<longrightarrow> blob_exists g i"
  proof (intro allI impI)
    fix i assume "1 \<le> i \<and> i \<le> chunk_idx st1"
    with skip(4) have "i \<le> chunk_idx st \<or> i = chunk_idx st + 1" by auto
    with skip(5) skip.prems(2) \<open>1 \<le> i \<and> i \<le> chunk_idx st1\<close> show "blob_exists g i" by auto
  qed
  then have d1: "durable ?g1"
    by (simp add: durable_iff blob_exists_save) (simp add: save_checkpoint_def checkpoint_of_def)
  from parts have p1: "\<forall>i. 1 \<le> i \<and> i \<le> chunk_idx st1 \<longrightarrow> blob_exists ?g1 i"
    by (simp add: blob_exists_save)
  note ih = skip.IH [OF d1 p1]
  show ?case
  proof (intro allI impI)
    fix p
    assume "prefix p (Find (last_sort_value st) batch # BlobExists (chunk_idx st + 1) True
        # SaveCheckpoint st1 # evs)"
    then consider "p = []" | "p = [Find (last_sort_value st) batch]"
      | "p = [Find (last_sort_value st) batch, BlobExists (chunk_idx st + 1) True]"
      | p2 where "p = Find (last_sort_value st) batch # BlobExists (chunk_idx st + 1) True
          # SaveCheckpoint st1 # p2" "prefix p2 evs"
      by (auto simp: prefix_Cons)
    then show "durable (foldl (apply_event lib ks) g p)"
    proof cases
      case 4
      with ih show ?thesis by simp
    qed (use skip.prems(1) in simp_all)
  qed
next
  case (upload g st batch st1 evs g' st')
  let ?idx = "chunk_idx st + 1"
  let ?gu = "upload_file g ?idx batch"
  let ?g1 = "save_checkpoint ?gu (checkpoint_of lib ks st1)"
  have du: "durable ?gu"
    using upload.prems(1)
    by (simp add: durable_iff blob_exists_upload) (simp add: upload_file_def)
  have parts: "\<forall>i. 1 \<le> i \<and> i \<le> chunk_idx st1 \<longrightarrow> blob_exists ?gu i"
  proof (intro allI impI)
    fix i assume "1 \<le> i \<and> i \<le> chunk_idx st1"
    with upload(4) have "i \<le> chunk_idx st \<or> i = chunk_idx st + 1" by auto
    with upload.prems(2) \<open>1 \<le> i \<and> i \<le> chunk_idx st1\<close> show "blob_exists ?gu i"
      by (auto simp: blob_exists_upload)
  qed
  then have d1: "durable ?g1"
    by (simp add: durable_iff blob_exists_save) (simp add: save_checkpoint_def checkpoint_of_def)
  from parts have p1: "\<forall>i. 1 \<le> i \<and> i \<le> chunk_idx st1 \<longrightarrow> blob_exists ?g1 i"
    by (simp add: blob_exists_save)
  note ih = upload.IH [OF d1 p1]
  show ?case
  proof (intro allI impI)
    fix p
    assume "prefix p (Find (last_sort_value st) batch # BlobExists ?idx False
        # WriteParquet ?idx batch # Upload ?idx batch # RemoveLocal ?idx
        # SaveCheckpoint st1 # evs)"
    then consider "p = []" | "p = [Find (last_sort_value st) batch]"
      | "p = [Find (last_sort_value st) batch, BlobExists ?idx False]"
      | "p = [Find (last_sort_value st) batch, BlobExists ?idx False, WriteParquet ?idx batch]"
      | "p = [Find (last_sort_value st) batch, BlobExists ?idx False, WriteParquet ?idx batch,
              Upload ?idx batch]"
      | "p = [Find (last_sort_value st) batch, BlobExists ?idx False, WriteParquet ?idx batch,
              Upload ?idx batch, RemoveLocal ?idx]"
      | p2 where "p = Find (last_sort_value st) batch # BlobExists ?idx False
          # WriteParquet ?idx batch # Upload ?idx batch # RemoveLocal ?idx
          # SaveCheckpoint st1 # p2" "prefix p2 evs"
      by (auto simp: prefix_Cons)
    then show "durable (foldl (apply_event lib ks) g p)"
    proof cases
      case 7
      with ih show ?thesis by simp
    qed (use upload.prems(1) du in simp_all)
  qed
qed

text \<open>
  The checkpoint in the bucket after a run of the loop: the one before it when no
  checkpoint was saved, else the checkpoint of the final state, whose cursor is the key
  of a document.
\<close>

lemma loop_checkpoint:
  assumes "export_loop cfg lib ks col g st = (evs, g', st')"
  shows "(saved_checkpoints evs = [] \<and> checkpoint_blob g' = checkpoint_blob g \<and> st' = st) \<or>
         (saved_checkpoints evs \<noteq> [] \<and> checkpoint_blob g' = Some (checkpoint_of lib ks st') \<and>
          (\<exists>d \<in> set col. last_sort_value st' = DocKey (sort_field d)))"
  using assms
proof (induction g st evs g' st' rule: export_loop_induct)
  case (skip g st batch st1 evs g' st')
  from find_batch_after(2) [OF skip(2,3)] skip(4)
  have "\<exists>d \<in> set col. last_sort_value st1 = DocKey (sort_field d)" by auto
  with skip.IH show ?case by (auto simp: save_checkpoint_def)
next
  case (upload g st batch st1 evs g' st')
  from find_batch_after(2) [OF upload(2,3)] upload(4)
  have "\<exists>d \<in> set col. last_sort_value st1 = DocKey (sort_field d)" by auto
  with upload.IH show ?case by (auto simp: save_checkpoint_def upload_file_def)
qed simp_all

lemma export_to_gcs_Inr:
  assumes "export_to_gcs cfg lib ks col g = Inr (evs, g')"
  obtains v evs1 g1 st' where
    "GCS_BUCKET cfg \<noteq> []"
    "decode_sort_value (ckpt_last_sort_value (load_checkpoint lib g)) = Inr v"
    "export_loop cfg lib ks col g
        \<lparr>chunk_idx = ckpt_chunk_idx (load_checkpoint lib g),
         exported_docs = ckpt_exported_docs (load_checkpoint lib g),
         last_sort_value = Loaded v\<rparr> = (evs1, g1, st')"
    "evs = evs1 @ [UploadManifest \<lparr>m_chunks = chunk_idx st', m_exported_docs = exported_docs st',
                     m_batch_size = BATCH_SIZE cfg, m_max_docs = MAX_DOCS cfg\<rparr>]"
    "g' = g1\<lparr>manifest_blob := Some \<lparr>m_chunks = chunk_idx st', m_exported_docs = exported_docs st',
                     m_batch_size = BATCH_SIZE cfg, m_max_docs = MAX_DOCS cfg\<rparr>\<rparr>"
proof -
  from assms have b: "GCS_BUCKET cfg \<noteq> []"
    by (auto simp: export_to_gcs_def split: if_splits)
  with assms obtain v where
    v: "decode_sort_value (ckpt_last_sort_value (load_checkpoint lib g)) = Inr v"
    by (cases "decode_sort_value (ckpt_last_sort_value (load_checkpoint lib g))")
       (auto simp: export_to_gcs_def Let_def)
  obtain evs1 g1 st' where l: "export_loop cfg lib ks col g
        \<lparr>chunk_idx = ckpt_chunk_idx (load_checkpoint lib g),
         exported_docs = ckpt_exported_docs (load_checkpoint lib g),
         last_sort_value = Loaded v\<rparr> = (evs1, g1, st')"
    by (metis prod_cases3)
  with assms b v that show thesis
    by (auto simp: export_to_gcs_def Let_def)
qed

text \<open>
  With a bucket name and a checkpoint whose payload decodes, \<open>export_to_gcs\<close> runs the
  loop from the checkpoint and uploads the manifest of the final state.
\<close>

lemma export_to_gcs_runs:
  assumes "GCS_BUCKET cfg \<noteq> []"
    and "decode_sort_value (ckpt_last_sort_value (load_checkpoint lib g)) = Inr v"
    and "export_loop cfg lib ks col g
        \<lparr>chunk_idx = ckpt_chunk_idx (load_checkpoint lib g),
         exported_docs = ckpt_exported_docs (load_checkpoint lib g),
         last_sort_value = Loaded v\<rparr> = (evs1, g1, st')"
  shows "export_to_gcs cfg lib ks col g =
     Inr (evs1 @ [UploadManifest \<lparr>m_chunks = chunk_idx st', m_exported_docs = exported_docs st',
                     m_batch_size = BATCH_SIZE cfg, m_max_docs = MAX_DOCS cfg\<rparr>],
          g1\<lparr>manifest_blob := Some \<lparr>m_chunks = chunk_idx st', m_exported_docs = exported_docs st',
                     m_batch_size = BATCH_SIZE cfg, m_max_docs = MAX_DOCS cfg\<rparr>\<rparr>)"
  using assms by (simp add: export_to_gcs_def Let_def)




text \<open>
  C10, as stated, fails: the final count is not always below \<open>cap + batch size\<close>. A run
  with the cap 3 and the batch size 1 that resumes from a checkpoint at 4 documents, left
  by a run with the batch size 2, stops at once and ends at 4, with a document still to
  export; and with the batch size 0, which is no limit for MongoDB, one batch takes the
  count from 0 to 5.
\<close>

theorem document_cap_counterexample:
  "0 < MAX_DOCS (demo_cfg\<lparr>BATCH_SIZE := 1\<rparr>) \<and>
   export_to_gcs (demo_cfg\<lparr>BATCH_SIZE := 1\<rparr>) demo_lib int_keys demo_col capped_gcs =
     Inr ([UploadManifest \<lparr>m_chunks = 2, m_exported_docs = 4, m_batch_size = 1, m_max_docs = 3\<rparr>],
          capped_gcs\<lparr>manifest_blob :=
            Some \<lparr>m_chunks = 2, m_exported_docs = 4, m_batch_size = 1, m_max_docs = 3\<rparr>\<rparr>) \<and>
   find_batch (demo_cfg\<lparr>BATCH_SIZE := 1\<rparr>) int_keys (Loaded (PInt 4)) demo_col = [doc_e] \<and>
   \<not> (4 < MAX_DOCS (demo_cfg\<lparr>BATCH_SIZE := 1\<rparr>) + int (BATCH_SIZE (demo_cfg\<lparr>BATCH_SIZE := 1\<rparr>))) \<and>
   0 < MAX_DOCS (demo_cfg\<lparr>BATCH_SIZE := 0\<rparr>) \<and>
   export_to_gcs (demo_cfg\<lparr>BATCH_SIZE := 0\<rparr>) demo_lib int_keys demo_col empty_gcs =
     Inr ([Find (Loaded PNone) [doc_a, doc_b, doc_c, doc_d, doc_e], BlobExists 1 False,
           WriteParquet 1 [doc_a, doc_b, doc_c, doc_d, doc_e],
           Upload 1 [doc_a, doc_b, doc_c, doc_d, doc_e], RemoveLocal 1,
           SaveCheckpoint \<lparr>chunk_idx = 1, exported_docs = 5, last_sort_value = DocKey 5\<rparr>,
           UploadManifest \<lparr>m_chunks = 1, m_exported_docs = 5, m_batch_size = 0, m_max_docs = 3\<rparr>],
          \<lparr>part_blobs = [(1, [doc_a, doc_b, doc_c, doc_d, doc_e])],
           checkpoint_blob =
             Some \<lparr>ckpt_chunk_idx = 1, ckpt_exported_docs = 5,
                   ckpt_last_sort_value = \<lparr>ptype = ''int'', pvalue = PInt 5\<rparr>\<rparr>,
           manifest_blob =
             Some \<lparr>m_chunks = 1, m_exported_docs = 5, m_batch_size = 0, m_max_docs = 3\<rparr>\<rparr>) \<and>
   \<not> (5 < MAX_DOCS (demo_cfg\<lparr>BATCH_SIZE := 0\<rparr>) + int (BATCH_SIZE (demo_cfg\<lparr>BATCH_SIZE := 0\<rparr>)))"
  by (intro conjI) code_simp+

text \<open>
  C10 (amended): with a positive cap, the loop stops at the head of an iteration, before
  the query, when the exported count has reached the cap; every iteration that runs
  starts below the cap and exports the whole batch that the query returns; the run ends
  at the last checkpoint saved, with the cap reached or the source exhausted; with a
  positive batch size and from a start below \<open>cap + batch size\<close>, the final count is
  below \<open>cap + batch size\<close>; and \<open>export_to_gcs\<close>, given a bucket name and a checkpoint
  whose payload decodes (as the one of a bucket without a checkpoint does), runs the loop
  from the checkpoint and writes the manifest with the final chunk index and count.
\<close>

theorem document_cap:
  assumes "0 < MAX_DOCS cfg"
  shows "(MAX_DOCS cfg \<le> exported_docs st \<longrightarrow> export_loop cfg lib ks col g st = ([], g, st)) \<and>
    (export_loop cfg lib ks col g st = (evs, g', st') \<longrightarrow>
       (\<forall>i < length (saved_checkpoints evs).
          exported_docs ((st # saved_checkpoints evs) ! i) < MAX_DOCS cfg \<and>
          exported_batches evs ! i
            = find_batch cfg ks (last_sort_value ((st # saved_checkpoints evs) ! i)) col \<and>
          exported_docs (saved_checkpoints evs ! i) =
            exported_docs ((st # saved_checkpoints evs) ! i) + int (length (exported_batches evs ! i))) \<and>
       st' = last (st # saved_checkpoints evs) \<and>
       (MAX_DOCS cfg \<le> exported_docs st' \<or> find_batch cfg ks (last_sort_value st') col = []) \<and>
       (0 < BATCH_SIZE cfg \<and> exported_docs st < MAX_DOCS cfg + int (BATCH_SIZE cfg) \<longrightarrow>
          exported_docs st' < MAX_DOCS cfg + int (BATCH_SIZE cfg))) \<and>
    (checkpoint_blob g = None \<longrightarrow>
       decode_sort_value (ckpt_last_sort_value (load_checkpoint lib g)) = Inr PNone) \<and>
    (GCS_BUCKET cfg \<noteq> [] \<and>
     decode_sort_value (ckpt_last_sort_value (load_checkpoint lib g)) = Inr v \<longrightarrow>
       (\<exists>evs1 g1 st1.
          export_loop cfg lib ks col g
            \<lparr>chunk_idx = ckpt_chunk_idx (load_checkpoint lib g),
             exported_docs = ckpt_exported_docs (load_checkpoint lib g),
             last_sort_value = Loaded v\<rparr> = (evs1, g1, st1) \<and>
          export_to_gcs cfg lib ks col g =
            Inr (evs1 @ [UploadManifest \<lparr>m_chunks = chunk_idx st1, m_exported_docs = exported_docs st1,
                                         m_batch_size = BATCH_SIZE cfg, m_max_docs = MAX_DOCS cfg\<rparr>],
                 g1\<lparr>manifest_blob :=
                      Some \<lparr>m_chunks = chunk_idx st1, m_exported_docs = exported_docs st1,
                            m_batch_size = BATCH_SIZE cfg, m_max_docs = MAX_DOCS cfg\<rparr>\<rparr>)))"
proof (intro conjI impI)
  assume "MAX_DOCS cfg \<le> exported_docs st"
  with assms show "export_loop cfg lib ks col g st = ([], g, st)"
    by (intro loop_capped) simp
next
  assume run: "export_loop cfg lib ks col g st = (evs, g', st')"
  note chain = loop_chain [OF run]
  show "\<forall>i < length (saved_checkpoints evs).
          exported_docs ((st # saved_checkpoints evs) ! i) < MAX_DOCS cfg \<and>
          exported_batches evs ! i
            = find_batch cfg ks (last_sort_value ((st # saved_checkpoints evs) ! i)) col \<and>
          exported_docs (saved_checkpoints evs ! i) =
            exported_docs ((st # saved_checkpoints evs) ! i) + int (length (exported_batches evs ! i))"
  proof (intro allI impI)
    fix i assume "i < length (saved_checkpoints evs)"
    with chain have "advances cfg ks col ((st # saved_checkpoints evs) ! i)
        (exported_batches evs ! i) (saved_checkpoints evs ! i)"
      by blast
    with assms show "exported_docs ((st # saved_checkpoints evs) ! i) < MAX_DOCS cfg \<and>
          exported_batches evs ! i
            = find_batch cfg ks (last_sort_value ((st # saved_checkpoints evs) ! i)) col \<and>
          exported_docs (saved_checkpoints evs ! i) =
            exported_docs ((st # saved_checkpoints evs) ! i) + int (length (exported_batches evs ! i))"
      by (simp add: advances_def)
  qed
  show "st' = last (st # saved_checkpoints evs)"
    by (rule loop_final_state [OF run])
  from loop_final [OF run]
  show "MAX_DOCS cfg \<le> exported_docs st' \<or> find_batch cfg ks (last_sort_value st') col = []"
    by blast
  assume "0 < BATCH_SIZE cfg \<and> exported_docs st < MAX_DOCS cfg + int (BATCH_SIZE cfg)"
  with loop_cap_bound [OF run assms]
  show "exported_docs st' < MAX_DOCS cfg + int (BATCH_SIZE cfg)" by simp
next
  assume "checkpoint_blob g = None"
  then show "decode_sort_value (ckpt_last_sort_value (load_checkpoint lib g)) = Inr PNone"
    by (simp add: load_checkpoint_def encode_sort_value_def decode_sort_value_def)
next
  assume a: "GCS_BUCKET cfg \<noteq> [] \<and>
     decode_sort_value (ckpt_last_sort_value (load_checkpoint lib g)) = Inr v"
  obtain evs1 g1 st1 where l: "export_loop cfg lib ks col g
        \<lparr>chunk_idx = ckpt_chunk_idx (load_checkpoint lib g),
         exported_docs = ckpt_exported_docs (load_checkpoint lib g),
         last_sort_value = Loaded v\<rparr> = (evs1, g1, st1)"
    by (metis prod_cases3)
  from a have b: "GCS_BUCKET cfg \<noteq> []"
    and d: "decode_sort_value (ckpt_last_sort_value (load_checkpoint lib g)) = Inr v"
    by simp_all
  from l export_to_gcs_runs [OF b d l]
  show "\<exists>evs1 g1 st1.
          export_loop cfg lib ks col g
            \<lparr>chunk_idx = ckpt_chunk_idx (load_checkpoint lib g),
             exported_docs = ckpt_exported_docs (load_checkpoint lib g),
             last_sort_value = Loaded v\<rparr> = (evs1, g1, st1) \<and>
          export_to_gcs cfg lib ks col g =
            Inr (evs1 @ [UploadManifest \<lparr>m_chunks = chunk_idx st1, m_exported_docs = exported_docs st1,
                                         m_batch_size = BATCH_SIZE cfg, m_max_docs = MAX_DOCS cfg\<rparr>],
                 g1\<lparr>manifest_blob :=
                      Some \<lparr>m_chunks = chunk_idx st1, m_exported_docs = exported_docs st1,
                            m_batch_size = BATCH_SIZE cfg, m_max_docs = MAX_DOCS cfg\<rparr>\<rparr>)"
    by blast
qed

text \<open>
  C1: at the head of an iteration where the cap is not reached, the query returns a batch
  that is not empty and the chunk blob of the next index is in the bucket, the iteration
  is the query, the existence check and the save of the checkpoint advanced by the batch
  (next index, count plus the length of the batch, sort value of its last document). The
  bucket then holds that checkpoint, with the payload of the sort value, and the chunk
  blobs and the manifest that it held; the rest of the run, which is the end of the run
  or starts with the next query, goes on from this bucket and this state. In every run,
  an index whose existence check is true has no local parquet write and no upload.
\<close>

theorem skip_existing_chunk:
  "(\<not> (MAX_DOCS cfg \<noteq> 0 \<and> MAX_DOCS cfg \<le> exported_docs st) \<and>
    find_batch cfg ks (last_sort_value st) col = batch \<and> batch \<noteq> [] \<and>
    blob_exists g (chunk_idx st + 1) \<longrightarrow>
      export_loop cfg lib ks col g st =
        (Find (last_sort_value st) batch # BlobExists (chunk_idx st + 1) True
         # SaveCheckpoint \<lparr>chunk_idx = chunk_idx st + 1,
                            exported_docs = exported_docs st + int (length batch),
                            last_sort_value = DocKey (sort_field (last batch))\<rparr>
         # fst (export_loop cfg lib ks col
                  (g\<lparr>checkpoint_blob :=
                       Some \<lparr>ckpt_chunk_idx = chunk_idx st + 1,
                             ckpt_exported_docs = exported_docs st + int (length batch),
                             ckpt_last_sort_value =
                               encode_sort_value lib (key_value ks (sort_field (last batch)))\<rparr>\<rparr>)
                  \<lparr>chunk_idx = chunk_idx st + 1,
                   exported_docs = exported_docs st + int (length batch),
                   last_sort_value = DocKey (sort_field (last batch))\<rparr>),
         snd (export_loop cfg lib ks col
                  (g\<lparr>checkpoint_blob :=
                       Some \<lparr>ckpt_chunk_idx = chunk_idx st + 1,
                             ckpt_exported_docs = exported_docs st + int (length batch),
                             ckpt_last_sort_value =
                               encode_sort_value lib (key_value ks (sort_field (last batch)))\<rparr>\<rparr>)
                  \<lparr>chunk_idx = chunk_idx st + 1,
                   exported_docs = exported_docs st + int (length batch),
                   last_sort_value = DocKey (sort_field (last batch))\<rparr>)) \<and>
      foldl (apply_event lib ks) g
          [Find (last_sort_value st) batch, BlobExists (chunk_idx st + 1) True,
           SaveCheckpoint \<lparr>chunk_idx = chunk_idx st + 1,
                           exported_docs = exported_docs st + int (length batch),
                           last_sort_value = DocKey (sort_field (last batch))\<rparr>] =
        g\<lparr>checkpoint_blob :=
             Some \<lparr>ckpt_chunk_idx = chunk_idx st + 1,
                   ckpt_exported_docs = exported_docs st + int (length batch),
                   ckpt_last_sort_value =
                     encode_sort_value lib (key_value ks (sort_field (last batch)))\<rparr>\<rparr> \<and>
      save_checkpoint g
          (checkpoint_of lib ks \<lparr>chunk_idx = chunk_idx st + 1,
                                 exported_docs = exported_docs st + int (length batch),
                                 last_sort_value = DocKey (sort_field (last batch))\<rparr>) =
        g\<lparr>checkpoint_blob :=
             Some \<lparr>ckpt_chunk_idx = chunk_idx st + 1,
                   ckpt_exported_docs = exported_docs st + int (length batch),
                   ckpt_last_sort_value =
                     encode_sort_value lib (key_value ks (sort_field (last batch)))\<rparr>\<rparr> \<and>
      checkpoint_blob (fst (snd (export_loop cfg lib ks col g st))) =
        Some (checkpoint_of lib ks (snd (snd (export_loop cfg lib ks col g st)))) \<and>
      (\<forall>c rest. fst (export_loop cfg lib ks col g st) =
          Find (last_sort_value st) batch # BlobExists (chunk_idx st + 1) True
            # SaveCheckpoint c # rest \<longrightarrow>
          rest = [] \<or> (\<exists>v b rest'. rest = Find v b # rest'))) \<and>
   (\<forall>i rows. BlobExists i True \<in> set (fst (export_loop cfg lib ks col g st)) \<longrightarrow>
      Upload i rows \<notin> set (fst (export_loop cfg lib ks col g st)) \<and>
      WriteParquet i rows \<notin> set (fst (export_loop cfg lib ks col g st)))"
proof (intro conjI impI allI)
  assume a: "\<not> (MAX_DOCS cfg \<noteq> 0 \<and> MAX_DOCS cfg \<le> exported_docs st) \<and>
    find_batch cfg ks (last_sort_value st) col = batch \<and> batch \<noteq> [] \<and>
    blob_exists g (chunk_idx st + 1)"
  let ?st1 = "\<lparr>chunk_idx = chunk_idx st + 1,
               exported_docs = exported_docs st + int (length batch),
               last_sort_value = DocKey (sort_field (last batch))\<rparr>"
  let ?g1 = "g\<lparr>checkpoint_blob :=
             Some \<lparr>ckpt_chunk_idx = chunk_idx st + 1,
                   ckpt_exported_docs = exported_docs st + int (length batch),
                   ckpt_last_sort_value =
                     encode_sort_value lib (key_value ks (sort_field (last batch)))\<rparr>\<rparr>"
  show saved: "save_checkpoint g (checkpoint_of lib ks ?st1) = ?g1"
    by (simp add: save_checkpoint_def checkpoint_of_def cursor_value_def)
  then show "foldl (apply_event lib ks) g
          [Find (last_sort_value st) batch, BlobExists (chunk_idx st + 1) True,
           SaveCheckpoint ?st1] = ?g1"
    by simp
  obtain evs g' st' where rec: "export_loop cfg lib ks col ?g1 ?st1 = (evs, g', st')"
    by (metis prod_cases3)
  from a rec have step: "export_loop cfg lib ks col g st =
     (Find (last_sort_value st) batch # BlobExists (chunk_idx st + 1) True # SaveCheckpoint ?st1 # evs,
      g', st')"
    unfolding saved [symmetric] by (intro loop_skip [OF _ _ _ refl]) simp_all
  with rec show "export_loop cfg lib ks col g st =
        (Find (last_sort_value st) batch # BlobExists (chunk_idx st + 1) True
         # SaveCheckpoint ?st1 # fst (export_loop cfg lib ks col ?g1 ?st1),
         snd (export_loop cfg lib ks col ?g1 ?st1))"
    by simp
  from loop_checkpoint [OF step]
  show "checkpoint_blob (fst (snd (export_loop cfg lib ks col g st))) =
        Some (checkpoint_of lib ks (snd (snd (export_loop cfg lib ks col g st))))"
    unfolding step by simp
  fix c rest
  assume "fst (export_loop cfg lib ks col g st) =
          Find (last_sort_value st) batch # BlobExists (chunk_idx st + 1) True
            # SaveCheckpoint c # rest"
  with step have "rest = evs" by simp
  with loop_head [OF rec] show "rest = [] \<or> (\<exists>v b rest'. rest = Find v b # rest')" by simp
next
  fix i rows
  assume b: "BlobExists i True \<in> set (fst (export_loop cfg lib ks col g st))"
  obtain evs g' st' where run: "export_loop cfg lib ks col g st = (evs, g', st')"
    by (metis prod_cases3)
  from loop_skip_no_upload [OF run] b run
  show "Upload i rows \<notin> set (fst (export_loop cfg lib ks col g st))"
    "WriteParquet i rows \<notin> set (fst (export_loop cfg lib ks col g st))"
    by simp_all
qed

text \<open>
  C2: a run that starts on a durable bucket leaves the bucket durable after every prefix of
  its trace, so wherever it stops; the bucket at the end is the one the trace produces;
  and every save of a checkpoint comes right after the true existence check of its chunk,
  or right after the upload of its chunk and the removal of the local file.
\<close>

theorem checkpoint_after_upload:
  assumes "durable g" and "export_to_gcs cfg lib ks col g = Inr (evs, g')"
  shows "(\<forall>p. prefix p evs \<longrightarrow> durable (foldl (apply_event lib ks) g p)) \<and>
    g' = foldl (apply_event lib ks) g evs \<and>
    (\<forall>q c post. evs = q @ SaveCheckpoint c # post \<longrightarrow>
       (\<exists>q'. q = q' @ [BlobExists (chunk_idx c) True]) \<or>
       (\<exists>q' rows. q = q' @ [Upload (chunk_idx c) rows, RemoveLocal (chunk_idx c)]))"
proof -
  let ?st = "\<lambda>v. \<lparr>chunk_idx = ckpt_chunk_idx (load_checkpoint lib g),
         exported_docs = ckpt_exported_docs (load_checkpoint lib g),
         last_sort_value = Loaded v\<rparr>"
  from assms(2) obtain v evs1 g1 st' where
    run: "export_loop cfg lib ks col g (?st v) = (evs1, g1, st')"
    and evs: "evs = evs1 @ [UploadManifest \<lparr>m_chunks = chunk_idx st', m_exported_docs = exported_docs st',
                     m_batch_size = BATCH_SIZE cfg, m_max_docs = MAX_DOCS cfg\<rparr>]"
    and g': "g' = g1\<lparr>manifest_blob := Some \<lparr>m_chunks = chunk_idx st', m_exported_docs = exported_docs st',
                     m_batch_size = BATCH_SIZE cfg, m_max_docs = MAX_DOCS cfg\<rparr>\<rparr>"
    by (rule export_to_gcs_Inr)
  let ?m = "\<lparr>m_chunks = chunk_idx st', m_exported_docs = exported_docs st',
             m_batch_size = BATCH_SIZE cfg, m_max_docs = MAX_DOCS cfg\<rparr>"
  from assms(1) have parts: "\<forall>i. 1 \<le> i \<and> i \<le> chunk_idx (?st v) \<longrightarrow> blob_exists g i"
    by (auto simp: durable_iff load_checkpoint_def split: option.splits)
  note pre = loop_prefix_durable [OF run assms(1) parts]
  note bucket = loop_bucket [OF run]
  have manifest: "durable (h\<lparr>manifest_blob := Some m\<rparr>) = durable h" for h :: "('a, 'b) gcs" and m
    by (simp add: durable_iff blob_exists_def)
  have 1: "\<forall>p. prefix p evs \<longrightarrow> durable (foldl (apply_event lib ks) g p)"
  proof (intro allI impI)
    fix p assume "prefix p evs"
    then consider "prefix p evs1" | "p = evs1 @ [UploadManifest ?m]"
      unfolding evs by (auto simp: prefix_snoc)
    then show "durable (foldl (apply_event lib ks) g p)"
    proof cases
      case 1
      with pre show ?thesis by blast
    next
      case 2
      from pre have "durable (foldl (apply_event lib ks) g evs1)" by blast
      with 2 show ?thesis by (simp add: manifest)
    qed
  qed
  have 2: "g' = foldl (apply_event lib ks) g evs"
    unfolding evs g' bucket by simp
  have 3: "\<forall>q c post. evs = q @ SaveCheckpoint c # post \<longrightarrow>
       (\<exists>q'. q = q' @ [BlobExists (chunk_idx c) True]) \<or>
       (\<exists>q' rows. q = q' @ [Upload (chunk_idx c) rows, RemoveLocal (chunk_idx c)])"
  proof (intro allI impI)
    fix q c post
    assume "evs = q @ SaveCheckpoint c # post"
    then have "evs1 @ [UploadManifest ?m] = (q @ SaveCheckpoint c # butlast post) @ [last post]
        \<and> post \<noteq> []"
      unfolding evs by (cases post rule: rev_cases) auto
    then have "evs1 = q @ SaveCheckpoint c # butlast post" by simp
    with loop_save_preceded [OF run]
    show "(\<exists>q'. q = q' @ [BlobExists (chunk_idx c) True]) \<or>
       (\<exists>q' rows. q = q' @ [Upload (chunk_idx c) rows, RemoveLocal (chunk_idx c)])"
      by blast
  qed
  from 1 2 3 show ?thesis by blast
qed

lemma find_batch_empty:
  "find_batch cfg ks cur col = [] \<longleftrightarrow> (\<forall>d \<in> set col. \<not> matches ks cur (sort_field d))"
proof -
  let ?xs = "sort_key sort_field (filter (\<lambda>d. matches ks cur (sort_field d)) col)"
  have "find_batch cfg ks cur col = [] \<longleftrightarrow> ?xs = []"
    by (auto simp: find_batch_def mongo_limit_def)
  also have "\<dots> \<longleftrightarrow> set ?xs = {}"
    by (simp only: set_empty)
  also have "\<dots> \<longleftrightarrow> (\<forall>d \<in> set col. \<not> matches ks cur (sort_field d))"
    by auto
  finally show ?thesis .
qed

lemma load_checkpoint_cong:
  "checkpoint_blob h = checkpoint_blob g \<Longrightarrow> load_checkpoint lib h = load_checkpoint lib g"
  by (simp add: load_checkpoint_def)

text \<open>
  C7, as stated, fails: the second run writes the manifest blob again.
\<close>

theorem rerun_writes_manifest_counterexample:
  "export_to_gcs demo_cfg_all demo_lib int_keys demo_col empty_gcs =
     Inr ([Find (Loaded PNone) [doc_a, doc_b, doc_c], BlobExists 1 False,
           WriteParquet 1 [doc_a, doc_b, doc_c], Upload 1 [doc_a, doc_b, doc_c], RemoveLocal 1,
           SaveCheckpoint \<lparr>chunk_idx = 1, exported_docs = 3, last_sort_value = DocKey 3\<rparr>,
           Find (DocKey 3) [doc_d, doc_e], BlobExists 2 False, WriteParquet 2 [doc_d, doc_e],
           Upload 2 [doc_d, doc_e], RemoveLocal 2,
           SaveCheckpoint \<lparr>chunk_idx = 2, exported_docs = 5, last_sort_value = DocKey 5\<rparr>,
           Find (DocKey 5) [],
           UploadManifest \<lparr>m_chunks = 2, m_exported_docs = 5, m_batch_size = 3, m_max_docs = 0\<rparr>],
          complete_gcs) \<and>
   export_to_gcs demo_cfg_all demo_lib int_keys demo_col complete_gcs =
     Inr ([Find (Loaded (PInt 5)) [],
           UploadManifest \<lparr>m_chunks = 2, m_exported_docs = 5, m_batch_size = 3, m_max_docs = 0\<rparr>],
          complete_gcs)"
  by (intro conjI) code_simp+

text \<open>
  C7 (amended): take a collection in which the payload of every key decodes to a value
  that is not \<open>None\<close> and after which the query matches no document that is not after
  the key; so it is for a key that the payload gives back and that MongoDB compares as it
  orders, and for a date key, which comes back as a text that no date is greater than.
  After a completed run, a second run with the same configuration on the same collection
  reads at most one batch, which is empty, uploads no chunk and saves no checkpoint; it
  uploads the manifest again, the same as the one in the bucket, and the bucket is as
  before.
\<close>

theorem rerun_after_completion:
  assumes run1: "export_to_gcs cfg lib ks col g = Inr (evs, g1)"
    and resume: "\<forall>d \<in> set col. \<exists>v.
        decode_sort_value (encode_sort_value lib (key_value ks (sort_field d))) = Inr v \<and>
        v \<noteq> PNone \<and>
        (\<forall>d' \<in> set col. key_gt ks (sort_field d') v \<longrightarrow> sort_field d < sort_field d')"
  shows "\<exists>m v. manifest_blob g1 = Some m \<and>
     decode_sort_value (ckpt_last_sort_value (load_checkpoint lib g1)) = Inr v \<and>
     (export_to_gcs cfg lib ks col g1 = Inr ([UploadManifest m], g1) \<or>
      export_to_gcs cfg lib ks col g1 = Inr ([Find (Loaded v) [], UploadManifest m], g1))"
proof -
  let ?st0 = "\<lambda>v. \<lparr>chunk_idx = ckpt_chunk_idx (load_checkpoint lib g),
         exported_docs = ckpt_exported_docs (load_checkpoint lib g),
         last_sort_value = Loaded v\<rparr>"
  from run1 obtain v0 evs1 gl st' where
    bucket: "GCS_BUCKET cfg \<noteq> []"
    and d0: "decode_sort_value (ckpt_last_sort_value (load_checkpoint lib g)) = Inr v0"
    and run: "export_loop cfg lib ks col g (?st0 v0) = (evs1, gl, st')"
    and g1: "g1 = gl\<lparr>manifest_blob := Some \<lparr>m_chunks = chunk_idx st', m_exported_docs = exported_docs st',
                     m_batch_size = BATCH_SIZE cfg, m_max_docs = MAX_DOCS cfg\<rparr>\<rparr>"
    by (rule export_to_gcs_Inr)
  let ?m = "\<lparr>m_chunks = chunk_idx st', m_exported_docs = exported_docs st',
             m_batch_size = BATCH_SIZE cfg, m_max_docs = MAX_DOCS cfg\<rparr>"
  have m: "manifest_blob g1 = Some ?m" by (simp add: g1)
  have same: "g1\<lparr>manifest_blob := Some ?m\<rparr> = g1" by (simp add: g1)
  have ck: "checkpoint_blob g1 = checkpoint_blob gl" by (simp add: g1)
  have "\<exists>v. decode_sort_value (ckpt_last_sort_value (load_checkpoint lib g1)) = Inr v \<and>
      ckpt_chunk_idx (load_checkpoint lib g1) = chunk_idx st' \<and>
      ckpt_exported_docs (load_checkpoint lib g1) = exported_docs st' \<and>
      (find_batch cfg ks (last_sort_value st') col = [] \<longrightarrow> find_batch cfg ks (Loaded v) col = [])"
  proof -
    from loop_checkpoint [OF run] consider
        (none) "checkpoint_blob gl = checkpoint_blob g" "st' = ?st0 v0"
      | (saved) d where "checkpoint_blob gl = Some (checkpoint_of lib ks st')" "d \<in> set col"
          "last_sort_value st' = DocKey (sort_field d)"
      by blast
    then show ?thesis
    proof cases
      case none
      from none(1) ck have "load_checkpoint lib g1 = load_checkpoint lib g"
        by (intro load_checkpoint_cong) simp
      with d0 none(2) show ?thesis by auto
    next
      case saved
      from saved(1) ck have l: "load_checkpoint lib g1 = checkpoint_of lib ks st'"
        by (simp add: load_checkpoint_def)
      from resume saved(2) obtain v where
        v: "decode_sort_value (encode_sort_value lib (key_value ks (sort_field d))) = Inr v"
          "v \<noteq> PNone"
          "\<forall>d' \<in> set col. key_gt ks (sort_field d') v \<longrightarrow> sort_field d < sort_field d'"
        by blast
      have "find_batch cfg ks (Loaded v) col = []"
        if "find_batch cfg ks (last_sort_value st') col = []"
      proof -
        from that saved(3) have "\<forall>d' \<in> set col. \<not> sort_field d < sort_field d'"
          by (simp add: find_batch_empty matches_def)
        with v(2,3) show ?thesis
          by (auto simp: find_batch_empty matches_def)
      qed
      with l v(1) saved(3) show ?thesis
        by (auto simp: checkpoint_of_def cursor_value_def)
    qed
  qed
  then obtain v where
    dv: "decode_sort_value (ckpt_last_sort_value (load_checkpoint lib g1)) = Inr v"
    and idx: "ckpt_chunk_idx (load_checkpoint lib g1) = chunk_idx st'"
    and cnt: "ckpt_exported_docs (load_checkpoint lib g1) = exported_docs st'"
    and emp: "find_batch cfg ks (last_sort_value st') col = [] \<longrightarrow>
        find_batch cfg ks (Loaded v) col = []"
    by blast
  let ?st2 = "\<lparr>chunk_idx = ckpt_chunk_idx (load_checkpoint lib g1),
         exported_docs = ckpt_exported_docs (load_checkpoint lib g1),
         last_sort_value = Loaded v\<rparr>"
  from loop_final [OF run] consider
      (cap) "MAX_DOCS cfg \<noteq> 0 \<and> MAX_DOCS cfg \<le> exported_docs st'"
    | (empty) "\<not> (MAX_DOCS cfg \<noteq> 0 \<and> MAX_DOCS cfg \<le> exported_docs st')"
        "find_batch cfg ks (last_sort_value st') col = []"
    by blast
  then show ?thesis
  proof cases
    case cap
    with cnt have "MAX_DOCS cfg \<noteq> 0 \<and> MAX_DOCS cfg \<le> exported_docs ?st2" by simp
    from loop_capped [OF this] have "export_loop cfg lib ks col g1 ?st2 = ([], g1, ?st2)" .
    from export_to_gcs_runs [OF bucket dv this] idx cnt same
    have "export_to_gcs cfg lib ks col g1 = Inr ([UploadManifest ?m], g1)"
      by simp
    with m dv show ?thesis by blast
  next
    case empty
    from empty(1) cnt have nc: "\<not> (MAX_DOCS cfg \<noteq> 0 \<and> MAX_DOCS cfg \<le> exported_docs ?st2)"
      by simp
    from empty(2) emp have "find_batch cfg ks (last_sort_value ?st2) col = []" by simp
    from loop_exhausted [OF nc this]
    have "export_loop cfg lib ks col g1 ?st2 = ([Find (Loaded v) []], g1, ?st2)" by simp
    from export_to_gcs_runs [OF bucket dv this] idx cnt same
    have "export_to_gcs cfg lib ks col g1 = Inr ([Find (Loaded v) [], UploadManifest ?m], g1)"
      by simp
    with m dv show ?thesis by blast
  qed
qed

lemma demo_loop_capped:
  "export_loop demo_cfg demo_lib int_keys demo_col empty_gcs fresh =
     ([Find (Loaded PNone) [doc_a, doc_b], BlobExists 1 False, WriteParquet 1 [doc_a, doc_b],
       Upload 1 [doc_a, doc_b], RemoveLocal 1,
       SaveCheckpoint \<lparr>chunk_idx = 1, exported_docs = 2, last_sort_value = DocKey 2\<rparr>,
       Find (DocKey 2) [doc_c, doc_d], BlobExists 2 False, WriteParquet 2 [doc_c, doc_d],
       Upload 2 [doc_c, doc_d], RemoveLocal 2,
       SaveCheckpoint \<lparr>chunk_idx = 2, exported_docs = 4, last_sort_value = DocKey 4\<rparr>],
      capped_gcs\<lparr>manifest_blob := None\<rparr>,
      \<lparr>chunk_idx = 2, exported_docs = 4, last_sort_value = DocKey 4\<rparr>)"
  by code_simp

lemma demo_export_capped:
  "export_to_gcs demo_cfg demo_lib int_keys demo_col empty_gcs =
     Inr ([Find (Loaded PNone) [doc_a, doc_b], BlobExists 1 False, WriteParquet 1 [doc_a, doc_b],
           Upload 1 [doc_a, doc_b], RemoveLocal 1,
           SaveCheckpoint \<lparr>chunk_idx = 1, exported_docs = 2, last_sort_value = DocKey 2\<rparr>,
           Find (DocKey 2) [doc_c, doc_d], BlobExists 2 False, WriteParquet 2 [doc_c, doc_d],
           Upload 2 [doc_c, doc_d], RemoveLocal 2,
           SaveCheckpoint \<lparr>chunk_idx = 2, exported_docs = 4, last_sort_value = DocKey 4\<rparr>,
           UploadManifest \<lparr>m_chunks = 2, m_exported_docs = 4, m_batch_size = 2, m_max_docs = 3\<rparr>],
          capped_gcs)"
  by code_simp


lemma demo_export_all:
  "export_to_gcs demo_cfg_all demo_lib int_keys demo_col empty_gcs =
     Inr ([Find (Loaded PNone) [doc_a, doc_b, doc_c], BlobExists 1 False,
           WriteParquet 1 [doc_a, doc_b, doc_c], Upload 1 [doc_a, doc_b, doc_c], RemoveLocal 1,
           SaveCheckpoint \<lparr>chunk_idx = 1, exported_docs = 3, last_sort_value = DocKey 3\<rparr>,
           Find (DocKey 3) [doc_d, doc_e], BlobExists 2 False, WriteParquet 2 [doc_d, doc_e],
           Upload 2 [doc_d, doc_e], RemoveLocal 2,
           SaveCheckpoint \<lparr>chunk_idx = 2, exported_docs = 5, last_sort_value = DocKey 5\<rparr>,
           Find (DocKey 5) [],
           UploadManifest \<lparr>m_chunks = 2, m_exported_docs = 5, m_batch_size = 3, m_max_docs = 0\<rparr>],
          complete_gcs)"
  by code_simp

lemma demo_export_datetime:
  "export_to_gcs demo_cfg_all demo_lib datetime_keys demo_col empty_gcs =
     Inr ([Find (Loaded PNone) [doc_a, doc_b, doc_c], BlobExists 1 False,
           WriteParquet 1 [doc_a, doc_b, doc_c], Upload 1 [doc_a, doc_b, doc_c], RemoveLocal 1,
           SaveCheckpoint \<lparr>chunk_idx = 1, exported_docs = 3, last_sort_value = DocKey 3\<rparr>,
           Find (DocKey 3) [doc_d, doc_e], BlobExists 2 False, WriteParquet 2 [doc_d, doc_e],
           Upload 2 [doc_d, doc_e], RemoveLocal 2,
           SaveCheckpoint \<lparr>chunk_idx = 2, exported_docs = 5, last_sort_value = DocKey 5\<rparr>,
           Find (DocKey 5) [],
           UploadManifest \<lparr>m_chunks = 2, m_exported_docs = 5, m_batch_size = 3, m_max_docs = 0\<rparr>],
          complete_datetime_gcs)"
  by code_simp

lemma demo_loop_crashed:
  "export_loop demo_cfg demo_lib int_keys demo_col crashed_gcs fresh =
     ([Find (Loaded PNone) [doc_a, doc_b], BlobExists 1 True,
       SaveCheckpoint \<lparr>chunk_idx = 1, exported_docs = 2, last_sort_value = DocKey 2\<rparr>,
       Find (DocKey 2) [doc_c, doc_d], BlobExists 2 False, WriteParquet 2 [doc_c, doc_d],
       Upload 2 [doc_c, doc_d], RemoveLocal 2,
       SaveCheckpoint \<lparr>chunk_idx = 2, exported_docs = 4, last_sort_value = DocKey 4\<rparr>],
      capped_gcs\<lparr>manifest_blob := None\<rparr>,
      \<lparr>chunk_idx = 2, exported_docs = 4, last_sort_value = DocKey 4\<rparr>)"
  by code_simp

lemma fresh_start:
  "\<lparr>chunk_idx = ckpt_chunk_idx (load_checkpoint lib empty_gcs),
    exported_docs = ckpt_exported_docs (load_checkpoint lib empty_gcs),
    last_sort_value = Loaded PNone\<rparr> = fresh"
  by (simp add: load_checkpoint_def empty_gcs_def fresh_def)


theorem document_cap_witness:
  "0 < MAX_DOCS demo_cfg \<and>
   MAX_DOCS demo_cfg \<le> exported_docs \<lparr>chunk_idx = 2, exported_docs = 4, last_sort_value = DocKey (4::nat)\<rparr> \<and>
   export_loop demo_cfg demo_lib int_keys demo_col empty_gcs
       \<lparr>chunk_idx = 2, exported_docs = 4, last_sort_value = DocKey 4\<rparr> =
     ([], empty_gcs, \<lparr>chunk_idx = 2, exported_docs = 4, last_sort_value = DocKey 4\<rparr>) \<and>
   export_loop demo_cfg demo_lib int_keys demo_col empty_gcs fresh =
     ([Find (Loaded PNone) [doc_a, doc_b], BlobExists 1 False, WriteParquet 1 [doc_a, doc_b],
       Upload 1 [doc_a, doc_b], RemoveLocal 1,
       SaveCheckpoint \<lparr>chunk_idx = 1, exported_docs = 2, last_sort_value = DocKey 2\<rparr>,
       Find (DocKey 2) [doc_c, doc_d], BlobExists 2 False, WriteParquet 2 [doc_c, doc_d],
       Upload 2 [doc_c, doc_d], RemoveLocal 2,
       SaveCheckpoint \<lparr>chunk_idx = 2, exported_docs = 4, last_sort_value = DocKey 4\<rparr>],
      capped_gcs\<lparr>manifest_blob := None\<rparr>,
      \<lparr>chunk_idx = 2, exported_docs = 4, last_sort_value = DocKey 4\<rparr>) \<and>
   exported_docs \<lparr>chunk_idx = 1, exported_docs = 2, last_sort_value = DocKey (2::nat)\<rparr> < MAX_DOCS demo_cfg \<and>
   [doc_c, doc_d] = find_batch demo_cfg int_keys (DocKey 2) demo_col \<and>
   0 < BATCH_SIZE demo_cfg \<and>
   exported_docs fresh < MAX_DOCS demo_cfg + int (BATCH_SIZE demo_cfg) \<and>
   MAX_DOCS demo_cfg < exported_docs \<lparr>chunk_idx = 2, exported_docs = 4, last_sort_value = DocKey (4::nat)\<rparr> \<and>
   exported_docs \<lparr>chunk_idx = 2, exported_docs = 4, last_sort_value = DocKey (4::nat)\<rparr>
     < MAX_DOCS demo_cfg + int (BATCH_SIZE demo_cfg) \<and>
   checkpoint_blob empty_gcs = None \<and>
   GCS_BUCKET demo_cfg \<noteq> [] \<and>
   decode_sort_value (ckpt_last_sort_value (load_checkpoint demo_lib empty_gcs)) = Inr PNone \<and>
   export_to_gcs demo_cfg demo_lib int_keys demo_col empty_gcs =
     Inr ([Find (Loaded PNone) [doc_a, doc_b], BlobExists 1 False, WriteParquet 1 [doc_a, doc_b],
           Upload 1 [doc_a, doc_b], RemoveLocal 1,
           SaveCheckpoint \<lparr>chunk_idx = 1, exported_docs = 2, last_sort_value = DocKey 2\<rparr>,
           Find (DocKey 2) [doc_c, doc_d], BlobExists 2 False, WriteParquet 2 [doc_c, doc_d],
           Upload 2 [doc_c, doc_d], RemoveLocal 2,
           SaveCheckpoint \<lparr>chunk_idx = 2, exported_docs = 4, last_sort_value = DocKey 4\<rparr>,
           UploadManifest \<lparr>m_chunks = 2, m_exported_docs = 4, m_batch_size = 2, m_max_docs = 3\<rparr>],
          capped_gcs) \<and>
   manifest_blob capped_gcs =
     Some \<lparr>m_chunks = 2, m_exported_docs = 4, m_batch_size = 2, m_max_docs = 3\<rparr>"
proof -
  let ?s2 = "\<lparr>chunk_idx = 2, exported_docs = 4, last_sort_value = DocKey (4::nat)\<rparr>"
  let ?T = "[Find (Loaded PNone) [doc_a, doc_b], BlobExists 1 False, WriteParquet 1 [doc_a, doc_b],
       Upload 1 [doc_a, doc_b], RemoveLocal 1,
       SaveCheckpoint \<lparr>chunk_idx = 1, exported_docs = 2, last_sort_value = DocKey 2\<rparr>,
       Find (DocKey 2) [doc_c, doc_d], BlobExists 2 False, WriteParquet 2 [doc_c, doc_d],
       Upload 2 [doc_c, doc_d], RemoveLocal 2,
       SaveCheckpoint ?s2]"
  let ?m = "\<lparr>m_chunks = 2, m_exported_docs = 4, m_batch_size = 2, m_max_docs = 3\<rparr>"
  have cap: "0 < MAX_DOCS demo_cfg" by (simp add: demo_cfg_def)
  have bs: "0 < BATCH_SIZE demo_cfg" by (simp add: demo_cfg_def)
  have start: "exported_docs fresh < MAX_DOCS demo_cfg + int (BATCH_SIZE demo_cfg)"
    by (simp add: demo_cfg_def fresh_def)
  have reached: "MAX_DOCS demo_cfg \<le> exported_docs ?s2" by (simp add: demo_cfg_def)
  have none: "checkpoint_blob empty_gcs = None" by (simp add: empty_gcs_def)
  have name: "GCS_BUCKET demo_cfg \<noteq> []" by (simp add: demo_cfg_def)
  note t = document_cap [OF cap, of ?s2 demo_lib int_keys demo_col empty_gcs]
  from t reached have stop: "export_loop demo_cfg demo_lib int_keys demo_col empty_gcs ?s2
      = ([], empty_gcs, ?s2)"
    by blast
  note u = document_cap [OF cap, of fresh demo_lib int_keys demo_col empty_gcs _ _ _ PNone]
  note run = u [THEN conjunct2, THEN conjunct1, rule_format, OF demo_loop_capped]
  from run [THEN conjunct1, rule_format, of 1]
  have it: "exported_docs \<lparr>chunk_idx = 1, exported_docs = 2, last_sort_value = DocKey (2::nat)\<rparr>
      < MAX_DOCS demo_cfg \<and> [doc_c, doc_d] = find_batch demo_cfg int_keys (DocKey 2) demo_col"
    by simp
  from run bs start have bound: "exported_docs ?s2 < MAX_DOCS demo_cfg + int (BATCH_SIZE demo_cfg)"
    by blast
  have over: "MAX_DOCS demo_cfg < exported_docs ?s2" by (simp add: demo_cfg_def)
  from u none have dec: "decode_sort_value (ckpt_last_sort_value (load_checkpoint demo_lib empty_gcs))
      = Inr PNone"
    by blast
  from u name dec obtain evs1 g1 st1 where
    l: "export_loop demo_cfg demo_lib int_keys demo_col empty_gcs
          \<lparr>chunk_idx = ckpt_chunk_idx (load_checkpoint demo_lib empty_gcs),
           exported_docs = ckpt_exported_docs (load_checkpoint demo_lib empty_gcs),
           last_sort_value = Loaded PNone\<rparr> = (evs1, g1, st1)"
    and e: "export_to_gcs demo_cfg demo_lib int_keys demo_col empty_gcs =
          Inr (evs1 @ [UploadManifest \<lparr>m_chunks = chunk_idx st1, m_exported_docs = exported_docs st1,
                         m_batch_size = BATCH_SIZE demo_cfg, m_max_docs = MAX_DOCS demo_cfg\<rparr>],
               g1\<lparr>manifest_blob :=
                    Some \<lparr>m_chunks = chunk_idx st1, m_exported_docs = exported_docs st1,
                          m_batch_size = BATCH_SIZE demo_cfg, m_max_docs = MAX_DOCS demo_cfg\<rparr>\<rparr>)"
    by blast
  from l have "evs1 = ?T" "g1 = capped_gcs\<lparr>manifest_blob := None\<rparr>" "st1 = ?s2"
    unfolding fresh_start demo_loop_capped by auto
  with e have ex: "export_to_gcs demo_cfg demo_lib int_keys demo_col empty_gcs =
      Inr (?T @ [UploadManifest ?m], capped_gcs)"
    by (simp add: demo_cfg_def capped_gcs_def)
  have man: "manifest_blob capped_gcs = Some ?m" by (simp add: capped_gcs_def)
  from cap reached stop demo_loop_capped it bs start over bound none name dec ex man
  show ?thesis by simp
qed

theorem skip_existing_chunk_witness:
  "\<not> (MAX_DOCS demo_cfg \<noteq> 0 \<and> MAX_DOCS demo_cfg \<le> exported_docs fresh) \<and>
   find_batch demo_cfg int_keys (last_sort_value fresh) demo_col = [doc_a, doc_b] \<and>
   [doc_a, doc_b] \<noteq> [] \<and>
   blob_exists crashed_gcs (chunk_idx fresh + 1) \<and>
   export_loop demo_cfg demo_lib int_keys demo_col crashed_gcs fresh =
     ([Find (Loaded PNone) [doc_a, doc_b], BlobExists 1 True,
       SaveCheckpoint \<lparr>chunk_idx = 1, exported_docs = 2, last_sort_value = DocKey 2\<rparr>,
       Find (DocKey 2) [doc_c, doc_d], BlobExists 2 False, WriteParquet 2 [doc_c, doc_d],
       Upload 2 [doc_c, doc_d], RemoveLocal 2,
       SaveCheckpoint \<lparr>chunk_idx = 2, exported_docs = 4, last_sort_value = DocKey 4\<rparr>],
      capped_gcs\<lparr>manifest_blob := None\<rparr>,
      \<lparr>chunk_idx = 2, exported_docs = 4, last_sort_value = DocKey 4\<rparr>) \<and>
   save_checkpoint crashed_gcs
       (checkpoint_of demo_lib int_keys \<lparr>chunk_idx = 1, exported_docs = 2, last_sort_value = DocKey 2\<rparr>) =
     \<lparr>part_blobs = [(1, [doc_a, doc_b])],
      checkpoint_blob =
        Some \<lparr>ckpt_chunk_idx = 1, ckpt_exported_docs = 2,
              ckpt_last_sort_value = \<lparr>ptype = ''int'', pvalue = PInt 2\<rparr>\<rparr>,
      manifest_blob = None\<rparr> \<and>
   foldl (apply_event demo_lib int_keys) crashed_gcs
       [Find (Loaded PNone) [doc_a, doc_b], BlobExists 1 True,
        SaveCheckpoint \<lparr>chunk_idx = 1, exported_docs = 2, last_sort_value = DocKey 2\<rparr>] =
     \<lparr>part_blobs = [(1, [doc_a, doc_b])],
      checkpoint_blob =
        Some \<lparr>ckpt_chunk_idx = 1, ckpt_exported_docs = 2,
              ckpt_last_sort_value = \<lparr>ptype = ''int'', pvalue = PInt 2\<rparr>\<rparr>,
      manifest_blob = None\<rparr> \<and>
   checkpoint_blob (fst (snd (export_loop demo_cfg demo_lib int_keys demo_col crashed_gcs fresh))) =
     Some \<lparr>ckpt_chunk_idx = 2, ckpt_exported_docs = 4,
           ckpt_last_sort_value = \<lparr>ptype = ''int'', pvalue = PInt 4\<rparr>\<rparr> \<and>
   BlobExists 1 True \<in> set (fst (export_loop demo_cfg demo_lib int_keys demo_col crashed_gcs fresh)) \<and>
   Upload 1 [doc_a, doc_b]
     \<notin> set (fst (export_loop demo_cfg demo_lib int_keys demo_col crashed_gcs fresh)) \<and>
   WriteParquet 1 [doc_a, doc_b]
     \<notin> set (fst (export_loop demo_cfg demo_lib int_keys demo_col crashed_gcs fresh))"
proof -
  let ?st1 = "\<lparr>chunk_idx = 1, exported_docs = 2, last_sort_value = DocKey (2::nat)\<rparr>"
  let ?g1 = "\<lparr>part_blobs = [(1, [doc_a, doc_b])],
      checkpoint_blob =
        Some \<lparr>ckpt_chunk_idx = 1, ckpt_exported_docs = 2,
              ckpt_last_sort_value = \<lparr>ptype = ''int'', pvalue = PInt 2\<rparr>\<rparr>,
      manifest_blob = None\<rparr> :: (nat, string) gcs"
  have h1: "\<not> (MAX_DOCS demo_cfg \<noteq> 0 \<and> MAX_DOCS demo_cfg \<le> exported_docs fresh)"
    by (simp add: fresh_def demo_cfg_def)
  have h2: "find_batch demo_cfg int_keys (last_sort_value fresh) demo_col = [doc_a, doc_b]"
    by code_simp
  have h3: "[doc_a, doc_b] \<noteq> []" by simp
  have h4: "blob_exists crashed_gcs (chunk_idx fresh + 1)"
    by (simp add: blob_exists_def fresh_def crashed_gcs_def)
  have ev: "BlobExists 1 True \<in> set (fst (export_loop demo_cfg demo_lib int_keys demo_col crashed_gcs fresh))"
    by (simp add: demo_loop_crashed)
  have st1: "\<lparr>chunk_idx = chunk_idx fresh + 1,
        exported_docs = exported_docs fresh + int (length [doc_a, doc_b]),
        last_sort_value = DocKey (sort_field (last [doc_a, doc_b]))\<rparr> = ?st1"
    by (simp add: fresh_def doc_b_def)
  have g1: "crashed_gcs\<lparr>checkpoint_blob :=
             Some \<lparr>ckpt_chunk_idx = chunk_idx fresh + 1,
                   ckpt_exported_docs = exported_docs fresh + int (length [doc_a, doc_b]),
                   ckpt_last_sort_value =
                     encode_sort_value demo_lib (key_value int_keys (sort_field (last [doc_a, doc_b])))\<rparr>\<rparr>
      = ?g1"
    by (simp add: fresh_def doc_b_def crashed_gcs_def int_keys_def encode_sort_value_def)
  note t = skip_existing_chunk [of demo_cfg fresh int_keys demo_col "[doc_a, doc_b]" crashed_gcs demo_lib]
  note body = t [THEN conjunct1, THEN mp, OF conjI [OF h1 conjI [OF h2 conjI [OF h3 h4]]]]
  from body have saved: "save_checkpoint crashed_gcs (checkpoint_of demo_lib int_keys ?st1) = ?g1"
    unfolding st1 g1 by blast
  from body have trace: "foldl (apply_event demo_lib int_keys) crashed_gcs
       [Find (last_sort_value fresh) [doc_a, doc_b], BlobExists (chunk_idx fresh + 1) True,
        SaveCheckpoint ?st1] = ?g1"
    unfolding st1 g1 by blast
  then have trace': "foldl (apply_event demo_lib int_keys) crashed_gcs
       [Find (Loaded PNone) [doc_a, doc_b], BlobExists 1 True, SaveCheckpoint ?st1] = ?g1"
    by (simp add: fresh_def)
  from body have "checkpoint_blob (fst (snd (export_loop demo_cfg demo_lib int_keys demo_col crashed_gcs fresh))) =
        Some (checkpoint_of demo_lib int_keys
          (snd (snd (export_loop demo_cfg demo_lib int_keys demo_col crashed_gcs fresh))))"
    by blast
  then have final: "checkpoint_blob (fst (snd (export_loop demo_cfg demo_lib int_keys demo_col crashed_gcs fresh))) =
     Some \<lparr>ckpt_chunk_idx = 2, ckpt_exported_docs = 4,
           ckpt_last_sort_value = \<lparr>ptype = ''int'', pvalue = PInt 4\<rparr>\<rparr>"
    by (simp add: demo_loop_crashed capped_gcs_def)
  from t ev have no: "Upload 1 [doc_a, doc_b]
       \<notin> set (fst (export_loop demo_cfg demo_lib int_keys demo_col crashed_gcs fresh))
     \<and> WriteParquet 1 [doc_a, doc_b]
       \<notin> set (fst (export_loop demo_cfg demo_lib int_keys demo_col crashed_gcs fresh))"
    by blast
  from h1 h2 h3 h4 demo_loop_crashed saved trace' final ev no show ?thesis
    by blast
qed

theorem checkpoint_after_upload_witness:
  "durable empty_gcs \<and>
   export_to_gcs demo_cfg demo_lib int_keys demo_col empty_gcs =
     Inr ([Find (Loaded PNone) [doc_a, doc_b], BlobExists 1 False, WriteParquet 1 [doc_a, doc_b],
           Upload 1 [doc_a, doc_b], RemoveLocal 1,
           SaveCheckpoint \<lparr>chunk_idx = 1, exported_docs = 2, last_sort_value = DocKey 2\<rparr>,
           Find (DocKey 2) [doc_c, doc_d], BlobExists 2 False, WriteParquet 2 [doc_c, doc_d],
           Upload 2 [doc_c, doc_d], RemoveLocal 2,
           SaveCheckpoint \<lparr>chunk_idx = 2, exported_docs = 4, last_sort_value = DocKey 4\<rparr>,
           UploadManifest \<lparr>m_chunks = 2, m_exported_docs = 4, m_batch_size = 2, m_max_docs = 3\<rparr>],
          capped_gcs) \<and>
   durable (foldl (apply_event demo_lib int_keys) empty_gcs
     [Find (Loaded PNone) [doc_a, doc_b], BlobExists 1 False, WriteParquet 1 [doc_a, doc_b],
      Upload 1 [doc_a, doc_b], RemoveLocal 1,
      SaveCheckpoint \<lparr>chunk_idx = 1, exported_docs = 2, last_sort_value = DocKey 2\<rparr>,
      Find (DocKey 2) [doc_c, doc_d], BlobExists 2 False, WriteParquet 2 [doc_c, doc_d],
      Upload 2 [doc_c, doc_d]]) \<and>
   foldl (apply_event demo_lib int_keys) empty_gcs
     [Find (Loaded PNone) [doc_a, doc_b], BlobExists 1 False, WriteParquet 1 [doc_a, doc_b],
      Upload 1 [doc_a, doc_b], RemoveLocal 1,
      SaveCheckpoint \<lparr>chunk_idx = 1, exported_docs = 2, last_sort_value = DocKey 2\<rparr>,
      Find (DocKey 2) [doc_c, doc_d], BlobExists 2 False, WriteParquet 2 [doc_c, doc_d],
      Upload 2 [doc_c, doc_d]] =
     \<lparr>part_blobs = [(1, [doc_a, doc_b]), (2, [doc_c, doc_d])],
      checkpoint_blob =
        Some \<lparr>ckpt_chunk_idx = 1, ckpt_exported_docs = 2,
              ckpt_last_sort_value = \<lparr>ptype = ''int'', pvalue = PInt 2\<rparr>\<rparr>,
      manifest_blob = None\<rparr>"
proof -
  have d: "durable empty_gcs" by (simp add: durable_def empty_gcs_def)
  note t = checkpoint_after_upload [OF d demo_export_capped]
  let ?p = "[Find (Loaded PNone) [doc_a, doc_b], BlobExists 1 False, WriteParquet 1 [doc_a, doc_b],
      Upload 1 [doc_a, doc_b], RemoveLocal 1,
      SaveCheckpoint \<lparr>chunk_idx = 1, exported_docs = 2, last_sort_value = DocKey 2\<rparr>,
      Find (DocKey 2) [doc_c, doc_d], BlobExists 2 False, WriteParquet 2 [doc_c, doc_d],
      Upload 2 [doc_c, doc_d]]"
  from t [THEN conjunct1, rule_format, of ?p]
  have dp: "durable (foldl (apply_event demo_lib int_keys) empty_gcs ?p)"
    by simp
  have st: "foldl (apply_event demo_lib int_keys) empty_gcs ?p =
     \<lparr>part_blobs = [(1, [doc_a, doc_b]), (2, [doc_c, doc_d])],
      checkpoint_blob =
        Some \<lparr>ckpt_chunk_idx = 1, ckpt_exported_docs = 2,
              ckpt_last_sort_value = \<lparr>ptype = ''int'', pvalue = PInt 2\<rparr>\<rparr>,
      manifest_blob = None\<rparr>"
    by code_simp
  from d demo_export_capped dp st show ?thesis by blast
qed

lemma int_keys_resume:
  "\<forall>d \<in> set col. \<exists>v.
      decode_sort_value (encode_sort_value lib (key_value int_keys (sort_field d))) = Inr v \<and>
      v \<noteq> PNone \<and>
      (\<forall>d' \<in> set col. key_gt int_keys (sort_field d') v \<longrightarrow> sort_field d < sort_field d')"
  by (simp add: int_keys_def encode_sort_value_def decode_sort_value_def)

lemma datetime_keys_resume:
  "\<forall>d \<in> set col. \<exists>v.
      decode_sort_value (encode_sort_value lib (key_value datetime_keys (sort_field d))) = Inr v \<and>
      v \<noteq> PNone \<and>
      (\<forall>d' \<in> set col. key_gt datetime_keys (sort_field d') v \<longrightarrow> sort_field d < sort_field d')"
  by (simp add: datetime_keys_def encode_sort_value_def decode_sort_value_def)

theorem rerun_after_completion_witness:
  "export_to_gcs demo_cfg_all demo_lib int_keys demo_col empty_gcs =
     Inr ([Find (Loaded PNone) [doc_a, doc_b, doc_c], BlobExists 1 False,
           WriteParquet 1 [doc_a, doc_b, doc_c], Upload 1 [doc_a, doc_b, doc_c], RemoveLocal 1,
           SaveCheckpoint \<lparr>chunk_idx = 1, exported_docs = 3, last_sort_value = DocKey 3\<rparr>,
           Find (DocKey 3) [doc_d, doc_e], BlobExists 2 False, WriteParquet 2 [doc_d, doc_e],
           Upload 2 [doc_d, doc_e], RemoveLocal 2,
           SaveCheckpoint \<lparr>chunk_idx = 2, exported_docs = 5, last_sort_value = DocKey 5\<rparr>,
           Find (DocKey 5) [],
           UploadManifest \<lparr>m_chunks = 2, m_exported_docs = 5, m_batch_size = 3, m_max_docs = 0\<rparr>],
          complete_gcs) \<and>
   decode_sort_value (encode_sort_value demo_lib (key_value int_keys 5)) = Inr (PInt 5) \<and>
   set (fst (projr (export_to_gcs demo_cfg_all demo_lib int_keys demo_col complete_gcs)))
     \<subseteq> {Find (Loaded (PInt 5)) [],
         UploadManifest \<lparr>m_chunks = 2, m_exported_docs = 5, m_batch_size = 3, m_max_docs = 0\<rparr>} \<and>
   snd (projr (export_to_gcs demo_cfg_all demo_lib int_keys demo_col complete_gcs)) = complete_gcs \<and>
   decode_sort_value (encode_sort_value demo_lib (key_value datetime_keys 5)) =
     Inr (PStr ''2024-01-01T00:00:00+00:00'') \<and>
   set (fst (projr (export_to_gcs demo_cfg_all demo_lib datetime_keys demo_col complete_datetime_gcs)))
     \<subseteq> {Find (Loaded (PStr ''2024-01-01T00:00:00+00:00'')) [],
         UploadManifest \<lparr>m_chunks = 2, m_exported_docs = 5, m_batch_size = 3, m_max_docs = 0\<rparr>} \<and>
   snd (projr (export_to_gcs demo_cfg_all demo_lib datetime_keys demo_col complete_datetime_gcs)) =
     complete_datetime_gcs"
proof -
  let ?m = "\<lparr>m_chunks = 2, m_exported_docs = 5, m_batch_size = 3, m_max_docs = 0\<rparr>"
  have i5: "decode_sort_value (encode_sort_value demo_lib (key_value int_keys 5)) = Inr (PInt 5)"
    by (simp add: int_keys_def encode_sort_value_def decode_sort_value_def)
  have d5: "decode_sort_value (encode_sort_value demo_lib (key_value datetime_keys 5)) =
     Inr (PStr ''2024-01-01T00:00:00+00:00'')"
    by (simp add: datetime_keys_def encode_sort_value_def decode_sort_value_def demo_lib_def)
  from rerun_after_completion [OF demo_export_all int_keys_resume] obtain m v where
    m: "manifest_blob complete_gcs = Some m" and
    v: "decode_sort_value (ckpt_last_sort_value (load_checkpoint demo_lib complete_gcs)) = Inr v" and
    r: "export_to_gcs demo_cfg_all demo_lib int_keys demo_col complete_gcs
          = Inr ([UploadManifest m], complete_gcs) \<or>
        export_to_gcs demo_cfg_all demo_lib int_keys demo_col complete_gcs
          = Inr ([Find (Loaded v) [], UploadManifest m], complete_gcs)"
    by blast
  from m have "m = ?m" by (simp add: complete_gcs_def)
  moreover from v have "v = PInt 5"
    by (simp add: complete_gcs_def load_checkpoint_def decode_sort_value_def)
  ultimately have a: "set (fst (projr (export_to_gcs demo_cfg_all demo_lib int_keys demo_col complete_gcs)))
       \<subseteq> {Find (Loaded (PInt 5)) [], UploadManifest ?m} \<and>
     snd (projr (export_to_gcs demo_cfg_all demo_lib int_keys demo_col complete_gcs)) = complete_gcs"
    using r by auto
  from rerun_after_completion [OF demo_export_datetime datetime_keys_resume] obtain m' v' where
    m': "manifest_blob complete_datetime_gcs = Some m'" and
    v': "decode_sort_value (ckpt_last_sort_value (load_checkpoint demo_lib complete_datetime_gcs))
          = Inr v'" and
    r': "export_to_gcs demo_cfg_all demo_lib datetime_keys demo_col complete_datetime_gcs
          = Inr ([UploadManifest m'], complete_datetime_gcs) \<or>
        export_to_gcs demo_cfg_all demo_lib datetime_keys demo_col complete_datetime_gcs
          = Inr ([Find (Loaded v') [], UploadManifest m'], complete_datetime_gcs)"
    by blast
  from m' have "m' = ?m" by (simp add: complete_datetime_gcs_def complete_gcs_def)
  moreover from v' have "v' = PStr ''2024-01-01T00:00:00+00:00''"
    by (simp add: complete_datetime_gcs_def load_checkpoint_def decode_sort_value_def)
  ultimately have b: "set (fst (projr (export_to_gcs demo_cfg_all demo_lib datetime_keys demo_col
          complete_datetime_gcs)))
       \<subseteq> {Find (Loaded (PStr ''2024-01-01T00:00:00+00:00'')) [], UploadManifest ?m} \<and>
     snd (projr (export_to_gcs demo_cfg_all demo_lib datetime_keys demo_col complete_datetime_gcs))
       = complete_datetime_gcs"
    using r' by auto
  from demo_export_all i5 d5 a b show ?thesis by blast
qed

end
